theory Spec2Isabelle
  imports Complex_Main "HOL-Library.Sublist" "HOL-Library.AList"
begin

section \<open>Values exchanged with the outside world\<close>

text \<open>
  Decoded JSON, as \<open>resp.json()\<close> and \<open>request.get_json()\<close> hand it to the
  program. An object keeps its members as an association list with distinct keys, in
  insertion order, like a Python \<open>dict\<close>. Python floats are modelled by reals: no
  property below depends on rounding.
\<close>

datatype json =
    JNull
  | JBool bool
  | JInt int
  | JFloat real
  | JStr string
  | JArr "json list"
  | JObj "(string \<times> json) list"

text \<open>The exceptions the two scripts can meet.\<close>

datatype exn =
    ConnectionError
  | Timeout
  | HTTPError nat
  | JSONDecodeError
  | KeyError string
  | TypeError
  | ValueError
  | OverflowError
  | AttributeError
  | DatabaseError
  | TransportError

type_synonym 'a result = "exn + 'a"

text \<open>A Python \<open>dict\<close> with string keys: \<open>d[k]\<close>, \<open>k in d\<close>, \<open>d[k] = v\<close>.\<close>

type_synonym 'v dict = "(string \<times> 'v) list"

definition dict_get :: "'v dict \<Rightarrow> string \<Rightarrow> 'v result" where
  "dict_get d k = (case map_of d k of None \<Rightarrow> Inl (KeyError k) | Some v \<Rightarrow> Inr v)"

definition dict_has :: "'v dict \<Rightarrow> string \<Rightarrow> bool" where
  "dict_has d k = (map_of d k \<noteq> None)"

definition dict_set :: "'v dict \<Rightarrow> string \<Rightarrow> 'v \<Rightarrow> 'v dict" where
  "dict_set d k v = AList.update k v d"

text \<open>
  Subscription \<open>data[k]\<close> with a string key on a decoded JSON value: a \<open>dict\<close>
  raises \<open>KeyError\<close> on a missing key, every other value raises \<open>TypeError\<close>.
\<close>

fun json_getitem :: "json \<Rightarrow> string \<Rightarrow> json result" where
  "json_getitem (JObj d) k = dict_get d k"
| "json_getitem _ k = Inl TypeError"

text \<open>
  Membership \<open>k in data\<close> with a string \<open>k\<close>: key membership on a \<open>dict\<close>, element
  membership on a list, substring test on a string, \<open>TypeError\<close> on anything else.
\<close>

fun json_contains :: "json \<Rightarrow> string \<Rightarrow> bool result" where
  "json_contains (JObj d) k = Inr (dict_has d k)"
| "json_contains (JArr xs) k = Inr (JStr k \<in> set xs)"
| "json_contains (JStr s) k = Inr (sublist k s)"
| "json_contains _ k = Inl TypeError"

section \<open>The HTTP client\<close>

record http_request =
  req_method :: string
  req_url :: string
  req_params :: "(string \<times> string) list"
  req_timeout :: "nat option"
  req_data :: "json option"
  req_headers :: "(string \<times> string) list"
  req_auth :: "(string \<times> string option) option"

record http_response =
  status_code :: nat
  text_body :: string
  json_body :: "json option"

text \<open>
  What one call of \<open>requests.get\<close> or \<open>requests.post\<close> can do: raise for a network
  failure, raise for a timeout, or return a response. \<open>json_body\<close> is what
  \<open>resp.json()\<close> decodes from the body, \<open>None\<close> when the body is not JSON.
\<close>

datatype http_outcome = NetworkFailure | TimedOut | Responded http_response

fun raise_for_status :: "http_response \<Rightarrow> unit result" where
  "raise_for_status r =
     (if 400 \<le> status_code r \<and> status_code r < 600 then Inl (HTTPError (status_code r))
      else Inr ())"

definition resp_json :: "http_response \<Rightarrow> json result" where
  "resp_json r = (case json_body r of None \<Rightarrow> Inl JSONDecodeError | Some j \<Rightarrow> Inr j)"

text \<open>One argument of a \<open>print\<close> call; a printed line is the list of its arguments.\<close>

datatype print_arg = PStr string | PNat nat | PJson json | PExn exn

section \<open>Dates and times\<close>

text \<open>
  A \<open>datetime\<close>: the wall-clock reading in microseconds since 1970-01-01T00:00:00 on
  the same wall clock, and the UTC offset in microseconds when the value is aware
  (\<open>None\<close> for a naive value).
\<close>

record datetime =
  wall_us :: int
  utcoffset :: "int option"

definition days_from_civil :: "int \<Rightarrow> int \<Rightarrow> int \<Rightarrow> int" where
  "days_from_civil y m d =
     (let y' = (if m \<le> 2 then y - 1 else y);
          era = y' div 400;
          yoe = y' - era * 400;
          doy = (153 * (if m > 2 then m - 3 else m + 9) + 2) div 5 + d - 1;
          doe = yoe * 365 + yoe div 4 - yoe div 100 + doy
      in era * 146097 + doe - 719468)"

definition is_leap :: "int \<Rightarrow> bool" where
  "is_leap y = (y mod 4 = 0 \<and> (y mod 100 \<noteq> 0 \<or> y mod 400 = 0))"

definition days_in_month :: "int \<Rightarrow> int \<Rightarrow> int" where
  "days_in_month y m =
     (if m = 2 then (if is_leap y then 29 else 28)
      else if m = 4 \<or> m = 6 \<or> m = 9 \<or> m = 11 then 30 else 31)"

definition us_per_second :: int where "us_per_second = 1000000"
definition us_per_day :: int where "us_per_day = 86400 * 1000000"

text \<open>The largest and smallest wall-clock readings a \<open>datetime\<close> can hold (years 1 to 9999).\<close>

definition MAX_WALL :: int where
  "MAX_WALL = days_from_civil 9999 12 31 * us_per_day + us_per_day - 1"

definition MIN_WALL :: int where
  "MIN_WALL = days_from_civil 1 1 1 * us_per_day"

definition digit_val :: "char \<Rightarrow> nat option" where
  "digit_val c =
     (let n = (of_char c :: nat) in if 48 \<le> n \<and> n \<le> 57 then Some (n - 48) else None)"

fun parse_digits_acc :: "nat \<Rightarrow> string \<Rightarrow> nat option" where
  "parse_digits_acc a [] = Some a"
| "parse_digits_acc a (c # cs) =
     (case digit_val c of None \<Rightarrow> None | Some d \<Rightarrow> parse_digits_acc (10 * a + d) cs)"

definition parse_digits :: "string \<Rightarrow> nat option" where
  "parse_digits s = (if s = [] then None else parse_digits_acc 0 s)"

text \<open>\<open>YYYY-MM-DD\<close>, with the range checks of the \<open>date\<close> constructor.\<close>

definition parse_isoformat_date :: "string \<Rightarrow> (int \<times> int \<times> int) option" where
  "parse_isoformat_date s =
     (if length s = 10 \<and> s ! 4 = CHR ''-'' \<and> s ! 7 = CHR ''-'' then
        (case (parse_digits (take 4 s), parse_digits (take 2 (drop 5 s)),
               parse_digits (drop 8 s)) of
           (Some y, Some m, Some d) \<Rightarrow>
             (if 1 \<le> y \<and> y \<le> 9999 \<and> 1 \<le> m \<and> m \<le> 12 \<and> 1 \<le> d
                 \<and> int d \<le> days_in_month (int y) (int m)
              then Some (int y, int m, int d) else None)
         | _ \<Rightarrow> None)
      else None)"

text \<open>
  \<open>HH[:MM[:SS[.fff[fff]]]]\<close>, giving hours, minutes, seconds and microseconds,
  without range checks.
\<close>

definition parse_hh_mm_ss_ff :: "string \<Rightarrow> (int \<times> int \<times> int \<times> int) option" where
  "parse_hh_mm_ss_ff s =
     (let n = length s;
          num = (\<lambda>t. map_option int (parse_digits t));
          hh = num (take 2 s);
          mm = (if n = 2 then Some 0 else if s ! 2 = CHR '':'' then num (take 2 (drop 3 s)) else None);
          ss = (if n \<le> 5 then Some 0 else if s ! 5 = CHR '':'' then num (take 2 (drop 6 s)) else None);
          ff = (if n \<le> 8 then Some 0
                else if s ! 8 = CHR ''.'' then
                  (if n = 12 then map_option (\<lambda>f. f * 1000) (num (drop 9 s)) else num (drop 9 s))
                else None)
      in if n = 2 \<or> n = 5 \<or> n = 8 \<or> n = 12 \<or> n = 15 then
           (case (hh, mm, ss, ff) of
              (Some h, Some m, Some sec, Some f) \<Rightarrow> Some (h, m, sec, f)
            | _ \<Rightarrow> None)
         else None)"

text \<open>The clock part and the offset part of a time string: the offset starts at the first sign.\<close>

definition is_sign :: "char \<Rightarrow> bool" where
  "is_sign c = (c = CHR ''+'' \<or> c = CHR ''-'')"

definition parse_isoformat_time :: "string \<Rightarrow> (int \<times> int option) option" where
  "parse_isoformat_time s =
     (let clock = takeWhile (\<lambda>c. \<not> is_sign c) s;
          rest = dropWhile (\<lambda>c. \<not> is_sign c) s
      in case parse_hh_mm_ss_ff clock of
           None \<Rightarrow> None
         | Some (h, m, sec, f) \<Rightarrow>
             (if h < 24 \<and> m < 60 \<and> sec < 60 then
                (let t = ((h * 60 + m) * 60 + sec) * us_per_second + f in
                 case rest of
                   [] \<Rightarrow> Some (t, None)
                 | sg # tz \<Rightarrow>
                     (case parse_hh_mm_ss_ff tz of
                        None \<Rightarrow> None
                      | Some (th, tm, tsec, tf) \<Rightarrow>
                          (let off = ((th * 60 + tm) * 60 + tsec) * us_per_second + tf in
                           if off < us_per_day
                           then Some (t, Some (if sg = CHR ''-'' then - off else off))
                           else None)))
              else None))"

text \<open>
  \<open>datetime.fromisoformat\<close> on the grammar
  \<open>YYYY-MM-DD[*HH[:MM[:SS[.fff[fff]]]][+HH:MM[:SS[.ffffff]]]]\<close> (\<open>*\<close> is any one
  character); every other string raises \<open>ValueError\<close>.
\<close>

definition fromisoformat :: "string \<Rightarrow> datetime result" where
  "fromisoformat s =
     (case parse_isoformat_date (take 10 s) of
        None \<Rightarrow> Inl ValueError
      | Some (y, m, d) \<Rightarrow>
          (let day = days_from_civil y m d * us_per_day in
           if length s \<le> 10 then Inr \<lparr>wall_us = day, utcoffset = None\<rparr>
           else
             (case parse_isoformat_time (drop 11 s) of
                None \<Rightarrow> Inl ValueError
              | Some (t, off) \<Rightarrow> Inr \<lparr>wall_us = day + t, utcoffset = off\<rparr>)))"

text \<open>\<open>s.replace('Z', '+00:00')\<close>\<close>

definition replace_Z :: "string \<Rightarrow> string" where
  "replace_Z s = concat (map (\<lambda>c. if c = CHR ''Z'' then ''+00:00'' else [c]) s)"

text \<open>
  \<open>a <= b\<close> on two datetimes: aware values are compared as instants, naive values by
  their wall clock, and comparing an aware with a naive value raises \<open>TypeError\<close>.
\<close>

definition dt_le :: "datetime \<Rightarrow> datetime \<Rightarrow> bool result" where
  "dt_le a b =
     (case (utcoffset a, utcoffset b) of
        (Some oa, Some ob) \<Rightarrow> Inr (wall_us a - oa \<le> wall_us b - ob)
      | (None, None) \<Rightarrow> Inr (wall_us a \<le> wall_us b)
      | _ \<Rightarrow> Inl TypeError)"

text \<open>
  \<open>dt + timedelta(microseconds = delta)\<close>: the wall clock moves, the offset stays, and a
  result outside the years 1 to 9999 raises \<open>OverflowError\<close>.
\<close>

definition dt_add :: "datetime \<Rightarrow> int \<Rightarrow> datetime result" where
  "dt_add a delta =
     (if MIN_WALL \<le> wall_us a + delta \<and> wall_us a + delta \<le> MAX_WALL
      then Inr (a\<lparr>wall_us := wall_us a + delta\<rparr>) else Inl OverflowError)"

definition five_minutes :: int where
  "five_minutes = 5 * 60 * us_per_second"

text \<open>
  \<open>dt.timestamp()\<close> in microseconds since the epoch. An aware value is converted by
  its offset. For a naive value the host's local time zone decides; \<open>local_zone\<close> is
  that conversion, from a wall-clock reading to an instant, and it raises where the
  host cannot convert the reading (as it does next to the first and the last
  representable date).
\<close>

definition timestamp_us :: "(int \<Rightarrow> int result) \<Rightarrow> datetime \<Rightarrow> int result" where
  "timestamp_us local_zone a =
     (case utcoffset a of Some off \<Rightarrow> Inr (wall_us a - off) | None \<Rightarrow> local_zone (wall_us a))"

text \<open>\<open>int(x)\<close> truncates towards zero.\<close>

definition trunc_div :: "int \<Rightarrow> int \<Rightarrow> int" where
  "trunc_div a b = (if a < 0 then - ((- a) div b) else a div b)"

text \<open>\<open>int(dt.timestamp() * 1000)\<close>\<close>

definition timestamp_ms :: "(int \<Rightarrow> int result) \<Rightarrow> datetime \<Rightarrow> int result" where
  "timestamp_ms local_zone a =
     (case timestamp_us local_zone a of Inl e \<Rightarrow> Inl e | Inr us \<Rightarrow> Inr (trunc_div us 1000))"

text \<open>
  The key by which two datetimes of the same kind are ordered: the instant of an aware
  value, the wall clock of a naive one.
\<close>

definition order_key :: "datetime \<Rightarrow> int" where
  "order_key a = (case utcoffset a of Some off \<Rightarrow> wall_us a - off | None \<Rightarrow> wall_us a)"

text \<open>
  The loop that generates the timestamps:
  \<^verbatim>\<open>while current <= time_to: timestamps.append(...); current += timedelta(minutes=5)\<close>
\<close>

function gen_timestamps :: "(int \<Rightarrow> int result) \<Rightarrow> datetime \<Rightarrow> datetime \<Rightarrow> int list \<Rightarrow> int list result" where
  "gen_timestamps lz current time_to acc =
     (case dt_le current time_to of
        Inl e \<Rightarrow> Inl e
      | Inr False \<Rightarrow> Inr acc
      | Inr True \<Rightarrow>
          (case timestamp_ms lz current of
             Inl e \<Rightarrow> Inl e
           | Inr ts \<Rightarrow>
               (case dt_add current five_minutes of
                  Inl e \<Rightarrow> Inl e
                | Inr nxt \<Rightarrow> gen_timestamps lz nxt time_to (acc @ [ts]))))"
  by pat_completeness auto
termination
  by (relation "measure (\<lambda>(lz, current, time_to, acc). nat (MAX_WALL - wall_us current))")
     (auto simp: dt_add_def five_minutes_def us_per_second_def split: if_splits)

declare gen_timestamps.simps [simp del]

section \<open>The world the programs run in\<close>

text \<open>
  A row of the table \<open>metrics\<close>, as the database driver hands it over: the columns
  \<open>metric_name\<close>, \<open>timestamp\<close> and \<open>metric_value\<close>, each possibly \<open>NULL\<close>
  (\<open>None\<close>, \<open>JNull\<close>).
\<close>

record pg_row =
  row_metric_name :: "string option"
  row_timestamp :: "datetime option"
  row_metric_value :: json

text \<open>The statements the relational connector executes, with their bound parameters.\<close>

datatype pg_stmt =
    Sql string
  | TimeSeriesSql string datetime datetime

datatype pg_event = PgConnect | PgExecute nat pg_stmt

text \<open>
  One bucket of a \<open>date_histogram\<close> aggregation in the format of the search engine: the
  bucket key in epoch milliseconds and the average, \<open>null\<close> for a bucket without values.
\<close>

record es_bucket =
  bucket_key :: int
  bucket_avg :: "real option"

text \<open>A bucket of a \<open>terms\<close> aggregation: its key and its document count.\<close>

record terms_bucket =
  terms_key :: json
  doc_count :: int

record log_aggs =
  hits_total :: int
  error_doc_count :: int
  log_levels :: "terms_bucket list"

record app_aggs =
  avg_response_time :: "real option"
  request_count :: int
  status_codes :: "terms_bucket list"

datatype es_query =
    LogMetricsQuery string string
  | TimeSeriesQuery string string datetime datetime
  | AppMetricsQuery string

datatype es_event = EsPing | EsSearch es_query

text \<open>What constructing the client and pinging the search engine can do.\<close>

datatype es_init_outcome = ConstructorRaises | PingRaises | PingReturns bool

text \<open>
  The outside world answers each call from an oracle indexed by the number of calls made
  before it, so that two calls with the same arguments may be answered differently; an
  answer \<open>None\<close> stands for a call that raises, or for a search response without the
  aggregations asked for. The logs record, in order, every call issued and every line
  printed. \<open>local_zone\<close> is the host's conversion of a naive wall-clock reading to an
  instant (\<open>Inl\<close>: it raises), \<open>float_of_str\<close> what \<open>float\<close> makes of a string (\<open>None\<close>: it raises
  \<open>ValueError\<close>).
\<close>

record world =
  http_oracle :: "nat \<Rightarrow> http_request \<Rightarrow> http_outcome"
  http_log :: "http_request list"
  stdout :: "print_arg list list"
  local_zone :: "int \<Rightarrow> int result"
  float_of_str :: "string \<Rightarrow> real option"
  pg_connect_oracle :: "nat \<Rightarrow> bool"
  pg_table_oracle :: "nat \<Rightarrow> pg_row list option"
  pg_sql_oracle :: "nat \<Rightarrow> string \<Rightarrow> json dict list option"
  pg_log :: "pg_event list"
  es_init_oracle :: es_init_outcome
  es_histogram_oracle :: "nat \<Rightarrow> es_query \<Rightarrow> es_bucket list option"
  es_log_aggs_oracle :: "nat \<Rightarrow> es_query \<Rightarrow> log_aggs option"
  es_app_aggs_oracle :: "nat \<Rightarrow> es_query \<Rightarrow> app_aggs option"
  es_log :: "es_event list"

definition print_line :: "print_arg list \<Rightarrow> world \<Rightarrow> world" where
  "print_line l w = w\<lparr>stdout := stdout w @ [l]\<rparr>"

definition http_send :: "http_request \<Rightarrow> world \<Rightarrow> http_response result \<times> world" where
  "http_send rq w =
     (let w' = w\<lparr>http_log := http_log w @ [rq]\<rparr> in
      case http_oracle w (length (http_log w)) rq of
        NetworkFailure \<Rightarrow> (Inl ConnectionError, w')
      | TimedOut \<Rightarrow> (Inl Timeout, w')
      | Responded r \<Rightarrow> (Inr r, w'))"

text \<open>The request that \<open>requests.get(url, params=params, timeout=tmo)\<close> sends.\<close>

definition get_request :: "string \<Rightarrow> (string \<times> string) list \<Rightarrow> nat \<Rightarrow> http_request" where
  "get_request url params tmo =
     \<lparr>req_method = ''GET'', req_url = url, req_params = params, req_timeout = Some tmo,
      req_data = None, req_headers = [], req_auth = None\<rparr>"

definition requests_get :: "string \<Rightarrow> (string \<times> string) list \<Rightarrow> nat \<Rightarrow> world
    \<Rightarrow> http_response result \<times> world" where
  "requests_get url params tmo w = http_send (get_request url params tmo) w"

text \<open>Sequencing of steps that may raise.\<close>

definition bind_result :: "'a result \<Rightarrow> ('a \<Rightarrow> 'b result) \<Rightarrow> 'b result" where
  "bind_result r f = (case r of Inl e \<Rightarrow> Inl e | Inr x \<Rightarrow> f x)"

section \<open>API connectors\<close>

definition API_SOURCES_weather :: string where
  "API_SOURCES_weather = ''https://api.open-meteo.com/v1/forecast''"

definition API_SOURCES_crypto :: string where
  "API_SOURCES_crypto = ''https://api.coingecko.com/api/v3/simple/price''"

definition API_SOURCES_github :: string where
  "API_SOURCES_github = ''https://api.github.com/repos''"

text \<open>
  The part of each connector after the GET has returned: \<open>raise_for_status\<close>, decoding,
  and the field accesses, any of which may raise.
\<close>

definition weather_fields :: "http_response \<Rightarrow> json dict result" where
  "weather_fields resp =
     bind_result (raise_for_status resp) (\<lambda>_.
     bind_result (resp_json resp) (\<lambda>data.
     bind_result (json_getitem data ''current'') (\<lambda>c1.
     bind_result (json_getitem c1 ''temperature_2m'') (\<lambda>t.
     bind_result (json_getitem data ''current'') (\<lambda>c2.
     bind_result (json_getitem c2 ''wind_speed_10m'') (\<lambda>ws.
     bind_result (json_getitem data ''current'') (\<lambda>c3.
     bind_result (json_getitem c3 ''relative_humidity_2m'') (\<lambda>h.
       Inr (dict_set (dict_set (dict_set [] ''temperature'' t) ''wind_speed'' ws)
              ''humidity'' h)))))))))"

text \<open>
  \<open>fetch_weather_data(lat, lon)\<close>; the coordinates are given as the decimal strings the
  HTTP client puts into the query string.
\<close>

definition weather_params :: "string \<Rightarrow> string \<Rightarrow> (string \<times> string) list" where
  "weather_params lat lon =
     [(''latitude'', lat), (''longitude'', lon),
      (''current'', ''temperature_2m,wind_speed_10m,relative_humidity_2m'')]"

definition fetch_weather_data :: "string \<Rightarrow> string \<Rightarrow> world \<Rightarrow> json dict \<times> world" where
  "fetch_weather_data lat lon w =
     (let params = weather_params lat lon;
          (r, w1) = requests_get API_SOURCES_weather params 10 w
      in case bind_result r weather_fields of
           Inr d \<Rightarrow> (d, w1)
         | Inl e \<Rightarrow> ([], print_line [PStr ''Weather API error:'', PExn e] w1))"

text \<open>\<open>','.join(coins)\<close>\<close>

fun join_comma :: "string list \<Rightarrow> string" where
  "join_comma [] = []"
| "join_comma [s] = s"
| "join_comma (s # t # ss) = s @ '','' @ join_comma (t # ss)"

text \<open>
  The comprehension \<open>{coin: data[coin]['usd'] for coin in coins if coin in data}\<close>,
  run over the coins from left to right with the dictionary built so far.
\<close>

fun crypto_comprehension :: "json \<Rightarrow> string list \<Rightarrow> json dict \<Rightarrow> json dict result" where
  "crypto_comprehension data [] acc = Inr acc"
| "crypto_comprehension data (coin # coins) acc =
     bind_result (json_contains data coin) (\<lambda>present.
       if present then
         bind_result (json_getitem data coin) (\<lambda>entry.
         bind_result (json_getitem entry ''usd'') (\<lambda>price.
           crypto_comprehension data coins (dict_set acc coin price)))
       else crypto_comprehension data coins acc)"

definition crypto_fields :: "string list \<Rightarrow> http_response \<Rightarrow> json dict result" where
  "crypto_fields coins resp =
     bind_result (raise_for_status resp) (\<lambda>_.
     bind_result (resp_json resp) (\<lambda>data.
       crypto_comprehension data coins []))"

definition crypto_params :: "string list \<Rightarrow> (string \<times> string) list" where
  "crypto_params coins = [(''ids'', join_comma coins), (''vs_currencies'', ''usd'')]"

definition fetch_crypto_prices :: "string list \<Rightarrow> world \<Rightarrow> json dict \<times> world" where
  "fetch_crypto_prices coins w =
     (let params = crypto_params coins;
          (r, w1) = requests_get API_SOURCES_crypto params 10 w
      in case bind_result r (crypto_fields coins) of
           Inr d \<Rightarrow> (d, w1)
         | Inl e \<Rightarrow> ([], print_line [PStr ''Crypto API error:'', PExn e] w1))"

definition github_fields :: "http_response \<Rightarrow> json dict result" where
  "github_fields resp =
     bind_result (raise_for_status resp) (\<lambda>_.
     bind_result (resp_json resp) (\<lambda>data.
     bind_result (json_getitem data ''stargazers_count'') (\<lambda>s.
     bind_result (json_getitem data ''forks_count'') (\<lambda>f.
     bind_result (json_getitem data ''open_issues_count'') (\<lambda>i.
     bind_result (json_getitem data ''watchers_count'') (\<lambda>wt.
       Inr (dict_set (dict_set (dict_set (dict_set [] ''stars'' s) ''forks'' f)
              ''open_issues'' i) ''watchers'' wt)))))))"

definition fetch_github_stats :: "string \<Rightarrow> world \<Rightarrow> json dict \<times> world" where
  "fetch_github_stats repo w =
     (let (r, w1) = requests_get (API_SOURCES_github @ ''/'' @ repo) [] 10 w
      in case bind_result r github_fields of
           Inr d \<Rightarrow> (d, w1)
         | Inl e \<Rightarrow> ([], print_line [PStr ''GitHub API error:'', PExn e] w1))"

text \<open>The default arguments of the three connectors.\<close>

definition default_lat :: string where "default_lat = ''44.539051''"
definition default_lon :: string where "default_lon = ''18.47728''"
definition default_coins :: "string list" where "default_coins = [''bitcoin'', ''ethereum'']"
definition default_repo :: string where "default_repo = ''torvalds/linux''"

section \<open>Relational connector\<close>

record pg_conn =
  conn_id :: nat
  conn_closed :: bool

text \<open>The state of a \<open>PostgreSQLCollector\<close>: its connection handle, \<open>None\<close> at first.\<close>

record PostgreSQLCollector =
  conn :: "pg_conn option"

definition PostgreSQLCollector_init :: PostgreSQLCollector where
  "PostgreSQLCollector_init = \<lparr>conn = None\<rparr>"

definition connect :: "PostgreSQLCollector \<Rightarrow> world \<Rightarrow> bool \<times> PostgreSQLCollector \<times> world" where
  "connect c w =
     (let n = length (pg_log w); w1 = w\<lparr>pg_log := pg_log w @ [PgConnect]\<rparr> in
      if pg_connect_oracle w n
      then (True, c\<lparr>conn := Some \<lparr>conn_id = n, conn_closed = False\<rparr>\<rparr>, w1)
      else (False, c, print_line [PStr ''PostgreSQL connection error:'', PExn DatabaseError] w1))"

definition disconnect :: "PostgreSQLCollector \<Rightarrow> PostgreSQLCollector" where
  "disconnect c =
     (case conn c of None \<Rightarrow> c | Some cn \<Rightarrow> c\<lparr>conn := Some (cn\<lparr>conn_closed := True\<rparr>)\<rparr>)"

text \<open>\<open>not self.conn or self.conn.closed\<close>, and the statement guarded by it.\<close>

definition needs_connect :: "PostgreSQLCollector \<Rightarrow> bool" where
  "needs_connect c = (case conn c of None \<Rightarrow> True | Some cn \<Rightarrow> conn_closed cn)"

definition ensure_connected :: "PostgreSQLCollector \<Rightarrow> world \<Rightarrow> PostgreSQLCollector \<times> world" where
  "ensure_connected c w =
     (if needs_connect c
      then (let (ok, c1, w1) = connect c w in (c1, w1))
      else (c, w))"

text \<open>
  Opening a cursor on the handle: without a handle the attribute access raises, on a
  closed handle the driver raises.
\<close>

definition open_cursor :: "PostgreSQLCollector \<Rightarrow> nat result" where
  "open_cursor c =
     (case conn c of
        None \<Rightarrow> Inl AttributeError
      | Some cn \<Rightarrow> if conn_closed cn then Inl DatabaseError else Inr (conn_id cn))"

definition DEFAULT_METRICS_SQL :: string where
  "DEFAULT_METRICS_SQL =
     ''SELECT metric_name, metric_value, timestamp FROM metrics WHERE timestamp >= NOW() - INTERVAL '' @
     [CHR 0x27] @ ''1 hour'' @ [CHR 0x27] @ '' ORDER BY timestamp DESC''"

text \<open>\<open>if not query: query = ...\<close>: the default statement replaces \<open>None\<close> and the empty string.\<close>

definition metrics_sql :: "string option \<Rightarrow> string" where
  "metrics_sql query =
     (case query of None \<Rightarrow> DEFAULT_METRICS_SQL
      | Some s \<Rightarrow> if s = [] then DEFAULT_METRICS_SQL else s)"

definition fetch_metrics :: "string option \<Rightarrow> PostgreSQLCollector \<Rightarrow> world
    \<Rightarrow> json dict list \<times> PostgreSQLCollector \<times> world" where
  "fetch_metrics query c w =
     (let q = metrics_sql query;
          (c1, w1) = ensure_connected c w
      in case open_cursor c1 of
           Inl e \<Rightarrow> ([], c1, print_line [PStr ''PostgreSQL query error:'', PExn e] w1)
         | Inr cid \<Rightarrow>
             (let w2 = w1\<lparr>pg_log := pg_log w1 @ [PgExecute cid (Sql q)]\<rparr> in
              case pg_sql_oracle w1 (length (pg_log w1)) q of
                None \<Rightarrow> ([], c1, print_line [PStr ''PostgreSQL query error:'', PExn DatabaseError] w2)
              | Some rows \<Rightarrow> (rows, c1, w2)))"

text \<open>A row of the time-series query: the columns \<open>timestamp\<close> and \<open>metric_value\<close>.\<close>

record ts_row =
  ts_timestamp :: datetime
  ts_metric_value :: json

text \<open>
  What the time-series statement selects from the table: the rows of the metric whose
  timestamp lies between the two bounds, compared as datetimes compare, in ascending
  order of time. A \<open>NULL\<close> name or timestamp satisfies no comparison.
\<close>

definition select_time_series :: "string \<Rightarrow> datetime \<Rightarrow> datetime \<Rightarrow> pg_row list \<Rightarrow> ts_row list" where
  "select_time_series metric_name start_time end_time rows =
     sort_key (\<lambda>r. order_key (ts_timestamp r))
       (List.map_filter
          (\<lambda>r. case (row_metric_name r, row_timestamp r) of
                  (Some n, Some t) \<Rightarrow>
                    if n = metric_name \<and> dt_le start_time t = Inr True \<and> dt_le t end_time = Inr True
                    then Some \<lparr>ts_timestamp = t, ts_metric_value = row_metric_value r\<rparr>
                    else None
                | _ \<Rightarrow> None)
          rows)"

definition pg_fetch_time_series :: "string \<Rightarrow> datetime \<Rightarrow> datetime \<Rightarrow> PostgreSQLCollector \<Rightarrow> world
    \<Rightarrow> ts_row list \<times> PostgreSQLCollector \<times> world" where
  "pg_fetch_time_series metric_name start_time end_time c w =
     (let (c1, w1) = ensure_connected c w
      in case open_cursor c1 of
           Inl e \<Rightarrow> ([], c1, print_line [PStr ''PostgreSQL time series error:'', PExn e] w1)
         | Inr cid \<Rightarrow>
             (let w2 = w1\<lparr>pg_log := pg_log w1 @
                          [PgExecute cid (TimeSeriesSql metric_name start_time end_time)]\<rparr> in
              case pg_table_oracle w1 (length (pg_log w1)) of
                None \<Rightarrow> ([], c1, print_line [PStr ''PostgreSQL time series error:'', PExn DatabaseError] w2)
              | Some rows \<Rightarrow>
                  (select_time_series metric_name start_time end_time rows, c1, w2)))"

section \<open>Search connector\<close>

text \<open>
  The state of an \<open>ElasticsearchCollector\<close>: whether \<open>self.es\<close> holds a client, and the
  flag \<open>self.connected\<close>.
\<close>

record ElasticsearchCollector =
  es_client :: bool
  connected_flag :: bool

definition ElasticsearchCollector_init :: "world \<Rightarrow> ElasticsearchCollector \<times> world" where
  "ElasticsearchCollector_init w =
     (case es_init_oracle w of
        ConstructorRaises \<Rightarrow>
          (\<lparr>es_client = False, connected_flag = False\<rparr>,
           print_line [PStr ''Elasticsearch connection error:'', PExn TransportError] w)
      | PingRaises \<Rightarrow>
          (\<lparr>es_client = False, connected_flag = False\<rparr>,
           print_line [PStr ''Elasticsearch connection error:'', PExn TransportError]
             (w\<lparr>es_log := es_log w @ [EsPing]\<rparr>))
      | PingReturns b \<Rightarrow>
          (\<lparr>es_client = True, connected_flag = b\<rparr>, w\<lparr>es_log := es_log w @ [EsPing]\<rparr>))"

text \<open>\<open>self.es.search(index=index, body=query)\<close>, answered by the given oracle.\<close>

definition es_search :: "(world \<Rightarrow> nat \<Rightarrow> es_query \<Rightarrow> 'r option) \<Rightarrow> ElasticsearchCollector \<Rightarrow> es_query
    \<Rightarrow> world \<Rightarrow> 'r result \<times> world" where
  "es_search oracle c q w =
     (if \<not> es_client c then (Inl AttributeError, w)
      else (let w1 = w\<lparr>es_log := es_log w @ [EsSearch q]\<rparr> in
            case oracle w (length (es_log w)) q of
              None \<Rightarrow> (Inl TransportError, w1)
            | Some r \<Rightarrow> (Inr r, w1)))"

definition str_lower :: "string \<Rightarrow> string" where
  "str_lower s =
     map (\<lambda>c. let n = (of_char c :: nat) in if 65 \<le> n \<and> n \<le> 90 then char_of (n + 32) else c) s"

text \<open>The loop over the log-level buckets; a key that is no string has no \<open>lower\<close>.\<close>

fun log_level_metrics :: "terms_bucket list \<Rightarrow> json dict \<Rightarrow> json dict result" where
  "log_level_metrics [] metrics = Inr metrics"
| "log_level_metrics (b # bs) metrics =
     (case terms_key b of
        JStr k \<Rightarrow> log_level_metrics bs (dict_set metrics (''logs_'' @ str_lower k) (JInt (doc_count b)))
      | _ \<Rightarrow> Inl AttributeError)"

definition fetch_log_metrics :: "string \<Rightarrow> string \<Rightarrow> ElasticsearchCollector \<Rightarrow> world \<Rightarrow> json dict \<times> world" where
  "fetch_log_metrics index time_field c w =
     (if \<not> connected_flag c then ([], w)
      else (let (r, w1) = es_search es_log_aggs_oracle c (LogMetricsQuery index time_field) w in
            case bind_result r (\<lambda>a.
                   log_level_metrics (log_levels a)
                     (dict_set (dict_set [] ''total_logs'' (JInt (hits_total a)))
                        ''error_count'' (JInt (error_doc_count a)))) of
              Inr metrics \<Rightarrow> (metrics, w1)
            | Inl e \<Rightarrow> ([], print_line [PStr ''Elasticsearch query error:'', PExn e] w1)))"

record es_row =
  es_timestamp :: int
  es_value :: real

text \<open>\<open>bucket['avg_value']['value'] or 0\<close>\<close>

definition or_zero :: "real option \<Rightarrow> real" where
  "or_zero v = (case v of None \<Rightarrow> 0 | Some x \<Rightarrow> if x = 0 then 0 else x)"

definition es_fetch_time_series :: "string \<Rightarrow> string \<Rightarrow> datetime \<Rightarrow> datetime \<Rightarrow> ElasticsearchCollector
    \<Rightarrow> world \<Rightarrow> es_row list \<times> world" where
  "es_fetch_time_series index metric_field start_time end_time c w =
     (if \<not> connected_flag c then ([], w)
      else (let (r, w1) = es_search es_histogram_oracle c
                            (TimeSeriesQuery index metric_field start_time end_time) w in
            case r of
              Inr buckets \<Rightarrow>
                (map (\<lambda>b. \<lparr>es_timestamp = bucket_key b, es_value = or_zero (bucket_avg b)\<rparr>) buckets, w1)
            | Inl e \<Rightarrow> ([], print_line [PStr ''Elasticsearch time series error:'', PExn e] w1)))"

text \<open>
  The loop over the status-code buckets; \<open>str_of\<close> is what an f-string makes of a
  bucket key.
\<close>

fun status_code_metrics :: "(json \<Rightarrow> string) \<Rightarrow> terms_bucket list \<Rightarrow> json dict \<Rightarrow> json dict" where
  "status_code_metrics str_of [] metrics = metrics"
| "status_code_metrics str_of (b # bs) metrics =
     status_code_metrics str_of bs
       (dict_set metrics (''status_'' @ str_of (terms_key b)) (JInt (doc_count b)))"

definition fetch_application_metrics :: "(json \<Rightarrow> string) \<Rightarrow> string \<Rightarrow> ElasticsearchCollector \<Rightarrow> world
    \<Rightarrow> json dict \<times> world" where
  "fetch_application_metrics str_of index c w =
     (if \<not> connected_flag c then ([], w)
      else (let (r, w1) = es_search es_app_aggs_oracle c (AppMetricsQuery index) w in
            case r of
              Inr a \<Rightarrow>
                (status_code_metrics str_of (status_codes a)
                   (dict_set (dict_set [] ''avg_response_time'' (JFloat (or_zero (avg_response_time a))))
                      ''request_count'' (JInt (request_count a))), w1)
            | Inl e \<Rightarrow> ([], print_line [PStr ''Elasticsearch application metrics error:'', PExn e] w1)))"

section \<open>Query gateway\<close>

text \<open>\<open>hash(n)\<close> of an integer on a 64-bit build.\<close>

definition py_hash :: "int \<Rightarrow> int" where
  "py_hash n =
     (let m = \<bar>n\<bar> mod (2 ^ 61 - 1); h = (if n < 0 then - m else m)
      in if h = - 1 then - 2 else h)"

text \<open>
  An integer can be converted to a float when it rounds to a finite double; the first
  integer that does not is \<open>2 ^ 1024 - 2 ^ 970\<close>.
\<close>

definition fits_float :: "int \<Rightarrow> bool" where
  "fits_float i = (\<bar>i\<bar> < 2 ^ 1024 - 2 ^ 970)"

text \<open>A Python number: an \<open>int\<close> or a \<open>float\<close>.\<close>

datatype number = IntNum int | FloatNum real

text \<open>
  \<open>value + x\<close> for a number \<open>x\<close>: defined when \<open>value\<close> is a number or a boolean.
  Adding an \<open>int\<close> and a \<open>float\<close> converts the \<open>int\<close>, which raises
  \<open>OverflowError\<close> when it does not fit.
\<close>

fun py_add :: "json \<Rightarrow> number \<Rightarrow> real result" where
  "py_add (JInt i) (IntNum j) = Inr (of_int (i + j))"
| "py_add (JInt i) (FloatNum x) = (if fits_float i then Inr (of_int i + x) else Inl OverflowError)"
| "py_add (JFloat r) (IntNum j) = (if fits_float j then Inr (r + of_int j) else Inl OverflowError)"
| "py_add (JFloat r) (FloatNum x) = Inr (r + x)"
| "py_add (JBool b) (IntNum j) = Inr (of_int ((if b then 1 else 0) + j))"
| "py_add (JBool b) (FloatNum x) = Inr ((if b then 1 else 0) + x)"
| "py_add _ x = Inl TypeError"

text \<open>\<open>float(value)\<close>\<close>

fun py_float :: "(string \<Rightarrow> real option) \<Rightarrow> json \<Rightarrow> real result" where
  "py_float fos (JInt i) = (if fits_float i then Inr (of_int i) else Inl OverflowError)"
| "py_float fos (JFloat r) = Inr r"
| "py_float fos (JBool b) = Inr (if b then 1 else 0)"
| "py_float fos (JStr s) = (case fos s of None \<Rightarrow> Inl ValueError | Some r \<Rightarrow> Inr r)"
| "py_float fos _ = Inl TypeError"

text \<open>\<open>s.split(c)\<close>, which never returns an empty list, and \<open>s.split('.')[-1]\<close>.\<close>

fun split_on :: "char \<Rightarrow> string \<Rightarrow> string list" where
  "split_on c [] = [[]]"
| "split_on c (x # xs) =
     (if x = c then [] # split_on c xs
      else (case split_on c xs of [] \<Rightarrow> [[x]] | p # ps \<Rightarrow> (x # p) # ps))"

definition last_segment :: "string \<Rightarrow> string" where
  "last_segment metric = last (split_on CHR ''.'' metric)"

type_synonym datapoint = "real \<times> int"

record series =
  target :: string
  datapoints :: "datapoint list"

text \<open>
  \<open>for ts in timestamps: datapoints.append([value + jitter(ts), ts])\<close>, where the
  addition raises for a value that is no number.
\<close>

fun api_datapoints :: "json \<Rightarrow> (int \<Rightarrow> number) \<Rightarrow> int list \<Rightarrow> datapoint list \<Rightarrow> datapoint list result" where
  "api_datapoints v jitter [] acc = Inr acc"
| "api_datapoints v jitter (ts # tss) acc =
     (case py_add v (jitter ts) of
        Inl e \<Rightarrow> Inl e
      | Inr x \<Rightarrow> api_datapoints v jitter tss (acc @ [(x, ts)]))"

text \<open>
  The three jitters: \<open>(hash(ts) % 10 - 5) * 0.1\<close> is a float, \<open>hash(ts) % 100 - 50\<close>
  and \<open>hash(ts) % 20 - 10\<close> are ints.
\<close>

definition weather_jitter :: "int \<Rightarrow> number" where
  "weather_jitter ts = FloatNum (of_int (py_hash ts mod 10 - 5) * (1 / 10))"

definition crypto_jitter :: "int \<Rightarrow> number" where
  "crypto_jitter ts = IntNum (py_hash ts mod 100 - 50)"

definition github_jitter :: "int \<Rightarrow> number" where
  "github_jitter ts = IntNum (py_hash ts mod 20 - 10)"

text \<open>The lookup \<open>if name in data: value = data[name]; for ts in timestamps: ...\<close>\<close>

definition api_series :: "json dict \<Rightarrow> string \<Rightarrow> (int \<Rightarrow> number) \<Rightarrow> int list \<Rightarrow> datapoint list result" where
  "api_series data name jitter timestamps =
     (case map_of data name of
        None \<Rightarrow> Inr []
      | Some v \<Rightarrow> api_datapoints v jitter timestamps [])"

text \<open>
  \<open>for row in pg_data: ts = int(row['timestamp'].timestamp() * 1000);
  datapoints.append([float(row['metric_value']), ts])\<close>
\<close>

fun pg_datapoints :: "(int \<Rightarrow> int result) \<Rightarrow> (string \<Rightarrow> real option) \<Rightarrow> ts_row list
    \<Rightarrow> datapoint list \<Rightarrow> datapoint list result" where
  "pg_datapoints lz fos [] acc = Inr acc"
| "pg_datapoints lz fos (row # rows) acc =
     (case timestamp_ms lz (ts_timestamp row) of
        Inl e \<Rightarrow> Inl e
      | Inr ts \<Rightarrow>
          (case py_float fos (ts_metric_value row) of
             Inl e \<Rightarrow> Inl e
           | Inr x \<Rightarrow> pg_datapoints lz fos rows (acc @ [(x, ts)])))"

text \<open>\<open>for row in es_data: datapoints.append([float(row['value']), row['timestamp']])\<close>\<close>

definition es_datapoints :: "es_row list \<Rightarrow> datapoint list" where
  "es_datapoints rows = map (\<lambda>row. (es_value row, es_timestamp row)) rows"

text \<open>The body of the loop over the targets, up to the datapoints of one target.\<close>

definition target_datapoints :: "ElasticsearchCollector \<Rightarrow> datetime \<Rightarrow> datetime \<Rightarrow> int list \<Rightarrow> string
    \<Rightarrow> PostgreSQLCollector \<Rightarrow> world \<Rightarrow> datapoint list result \<times> PostgreSQLCollector \<times> world" where
  "target_datapoints es time_from time_to timestamps metric pg w =
     (if prefix ''api.weather.'' metric then
        (let (weather_data, w1) = fetch_weather_data default_lat default_lon w
         in (api_series weather_data (last_segment metric) weather_jitter timestamps, pg, w1))
      else if prefix ''api.crypto.'' metric then
        (let (crypto_data, w1) = fetch_crypto_prices default_coins w
         in (api_series crypto_data (last_segment metric) crypto_jitter timestamps, pg, w1))
      else if prefix ''api.github.'' metric then
        (let (github_data, w1) = fetch_github_stats default_repo w
         in (api_series github_data (last_segment metric) github_jitter timestamps, pg, w1))
      else if prefix ''postgres.'' metric then
        (let (pg_data, pg1, w1) = pg_fetch_time_series (last_segment metric) time_from time_to pg w
         in (pg_datapoints (local_zone w) (float_of_str w) pg_data [], pg1, w1))
      else if prefix ''elastic.'' metric then
        (let (es_data, w1) = es_fetch_time_series ''metrics-*'' (last_segment metric) time_from time_to es w
         in (Inr (es_datapoints es_data), pg, w1))
      else (Inr [], pg, w))"

text \<open>The loop over the targets; an exception in one target ends the request.\<close>

fun query_targets :: "ElasticsearchCollector \<Rightarrow> datetime \<Rightarrow> datetime \<Rightarrow> int list \<Rightarrow> string list
    \<Rightarrow> series list \<Rightarrow> PostgreSQLCollector \<Rightarrow> world \<Rightarrow> series list result \<times> PostgreSQLCollector \<times> world" where
  "query_targets es time_from time_to timestamps [] results pg w = (Inr results, pg, w)"
| "query_targets es time_from time_to timestamps (metric # rest) results pg w =
     (case target_datapoints es time_from time_to timestamps metric pg w of
        (Inl e, pg1, w1) \<Rightarrow> (Inl e, pg1, w1)
      | (Inr dps, pg1, w1) \<Rightarrow>
          query_targets es time_from time_to timestamps rest
            (results @ [\<lparr>target = metric, datapoints = dps\<rparr>]) pg1 w1)"

text \<open>
  A request body that has \<open>range.from\<close>, \<open>range.to\<close> and a list of targets, each with
  its \<open>target\<close> string.
\<close>

record query_request =
  range_from :: string
  range_to :: string
  targets :: "string list"

text \<open>
  The first part of the handler: both ends of the range are parsed and the timestamps
  are generated; each of the three steps may raise.
\<close>

definition query_range :: "query_request \<Rightarrow> world \<Rightarrow> (datetime \<times> datetime \<times> int list) result" where
  "query_range req w =
     (case fromisoformat (replace_Z (range_from req)) of
        Inl e \<Rightarrow> Inl e
      | Inr time_from \<Rightarrow>
          (case fromisoformat (replace_Z (range_to req)) of
             Inl e \<Rightarrow> Inl e
           | Inr time_to \<Rightarrow>
               (case gen_timestamps (local_zone w) time_from time_to [] of
                  Inl e \<Rightarrow> Inl e
                | Inr timestamps \<Rightarrow> Inr (time_from, time_to, timestamps))))"

text \<open>
  The handler of \<open>POST /query\<close>. \<open>Inl e\<close>: the handler raised \<open>e\<close> and the request
  failed; \<open>Inr results\<close>: the array sent back.
\<close>

definition query :: "ElasticsearchCollector \<Rightarrow> query_request \<Rightarrow> PostgreSQLCollector \<Rightarrow> world
    \<Rightarrow> series list result \<times> PostgreSQLCollector \<times> world" where
  "query es req pg w =
     (case query_range req w of
        Inl e \<Rightarrow> (Inl e, pg, w)
      | Inr (time_from, time_to, timestamps) \<Rightarrow>
          query_targets es time_from time_to timestamps (targets req) [] pg w)"

section \<open>Ticket filer\<close>

text \<open>The command line and the environment of one run.\<close>

record filer_run =
  arg_email :: string
  env_JSM_SITE :: "string option"
  env_API_TOKEN :: "string option"
  env_PROJECT_KEY :: "string option"

datatype exit_status = ExitNormally | ExitWithException exn

definition opt_json :: "string option \<Rightarrow> json" where
  "opt_json v = (case v of None \<Rightarrow> JNull | Some s \<Rightarrow> JStr s)"

text \<open>What an f-string makes of an environment variable: a missing one reads \<open>None\<close>.\<close>

definition fmt_opt :: "string option \<Rightarrow> string" where
  "fmt_opt v = (case v of None \<Rightarrow> ''None'' | Some s \<Rightarrow> s)"

definition payload :: "string option \<Rightarrow> json" where
  "payload project_key =
     JObj [(''fields'', JObj
       [(''project'', JObj [(''key'', opt_json project_key)]),
        (''summary'', JStr ''Test Incident from API''),
        (''description'', JObj
           [(''type'', JStr ''doc''),
            (''version'', JInt 1),
            (''content'', JArr
               [JObj [(''type'', JStr ''paragraph''),
                      (''content'', JArr
                         [JObj [(''type'', JStr ''text''),
                                (''text'', JStr ''This incident is created via API for testing.'')]])]])]),
        (''issuetype'', JObj [(''id'', JStr ''10049'')])])]"

text \<open>
  The request the script posts. \<open>EMAIL\<close> is first bound to the argument and then
  rebound to a fixed address, before the credentials are built.
\<close>

definition filer_request :: "filer_run \<Rightarrow> http_request" where
  "filer_request run =
     (let EMAIL = arg_email run;
          EMAIL = ''almir.alitovic@logicpulse.ba'';
          auth = (EMAIL, env_API_TOKEN run);
          headers = [(''Accept'', ''application/json''), (''Content-Type'', ''application/json'')];
          url = fmt_opt (env_JSM_SITE run) @ ''/rest/api/3/issue''
      in \<lparr>req_method = ''POST'', req_url = url, req_params = [], req_timeout = None,
          req_data = Some (payload (env_PROJECT_KEY run)), req_headers = headers,
          req_auth = Some auth\<rparr>)"

definition jsm_api_test :: "filer_run \<Rightarrow> world \<Rightarrow> exit_status \<times> world" where
  "jsm_api_test run w =
     (let (r, w1) = http_send (filer_request run) w in
      case r of
        Inl e \<Rightarrow> (ExitWithException e, w1)
      | Inr response \<Rightarrow>
          if status_code response = 201 then
            (case bind_result (resp_json response) (\<lambda>j. json_getitem j ''key'') of
               Inl e \<Rightarrow> (ExitWithException e, w1)
             | Inr k \<Rightarrow>
                 (ExitNormally, print_line [PStr ''Incident created successfully:'', PJson k] w1))
          else
            (ExitNormally,
             print_line [PStr ''Error:'', PNat (status_code response), PStr (text_body response)] w1))"

section \<open>Concrete worlds and inputs\<close>

text \<open>A world in which every outside call fails and nothing has happened yet.\<close>

definition silent_world :: world where
  "silent_world =
     \<lparr>http_oracle = (\<lambda>n rq. NetworkFailure), http_log = [], stdout = [],
      local_zone = (\<lambda>x. Inr x), float_of_str = (\<lambda>s. None),
      pg_connect_oracle = (\<lambda>n. False), pg_table_oracle = (\<lambda>n. None),
      pg_sql_oracle = (\<lambda>n q. None), pg_log = [],
      es_init_oracle = PingReturns False, es_histogram_oracle = (\<lambda>n q. None),
      es_log_aggs_oracle = (\<lambda>n q. None), es_app_aggs_oracle = (\<lambda>n q. None), es_log = []\<rparr>"

text \<open>The same world, with every HTTP call answered by the response \<open>r\<close>.\<close>

definition answering :: "http_response \<Rightarrow> world" where
  "answering r = silent_world\<lparr>http_oracle := (\<lambda>n rq. Responded r)\<rparr>"

definition example_run :: filer_run where
  "example_run =
     \<lparr>arg_email = ''ops@example.org'', env_JSM_SITE = Some ''https://example.atlassian.net'',
      env_API_TOKEN = Some ''token'', env_PROJECT_KEY = Some ''PROJ''\<rparr>"

text \<open>The response \<open>201\<close> with the body \<open>{"key":"PROJ-123"}\<close>, and a refusal.\<close>

definition created_response :: http_response where
  "created_response =
     \<lparr>status_code = 201,
      text_body = ''{'' @ [CHR 0x22] @ ''key'' @ [CHR 0x22] @ '':'' @ [CHR 0x22] @ ''PROJ-123'' @ [CHR 0x22] @ ''}'',
      json_body = Some (JObj [(''key'', JStr ''PROJ-123'')])\<rparr>"

definition refused_response :: http_response where
  "refused_response = \<lparr>status_code = 401, text_body = ''Unauthorized'', json_body = None\<rparr>"

section \<open>Shapes of upstream responses\<close>

text \<open>
  The field \<open>k\<close> of a JSON object, and the shapes the connectors rely on: the weather
  response has an object \<open>current\<close> with the three readings, the repository response has
  the four counters, and the price response is an object in which every requested coin
  that is present has a \<open>usd\<close> price.
\<close>

definition obj_field :: "json \<Rightarrow> string \<Rightarrow> json option" where
  "obj_field j k = (case j of JObj d \<Rightarrow> map_of d k | _ \<Rightarrow> None)"

definition is_object :: "json \<Rightarrow> bool" where
  "is_object j = (case j of JObj d \<Rightarrow> True | _ \<Rightarrow> False)"

definition weather_shape :: "json \<Rightarrow> bool" where
  "weather_shape data =
     (case obj_field data ''current'' of
        None \<Rightarrow> False
      | Some c \<Rightarrow> obj_field c ''temperature_2m'' \<noteq> None \<and> obj_field c ''wind_speed_10m'' \<noteq> None
                  \<and> obj_field c ''relative_humidity_2m'' \<noteq> None)"

definition github_shape :: "json \<Rightarrow> bool" where
  "github_shape data =
     (obj_field data ''stargazers_count'' \<noteq> None \<and> obj_field data ''forks_count'' \<noteq> None
      \<and> obj_field data ''open_issues_count'' \<noteq> None \<and> obj_field data ''watchers_count'' \<noteq> None)"

definition crypto_shape :: "string list \<Rightarrow> json \<Rightarrow> bool" where
  "crypto_shape coins data =
     (is_object data \<and>
      list_all (\<lambda>coin. case obj_field data coin of None \<Rightarrow> True
                        | Some entry \<Rightarrow> obj_field entry ''usd'' \<noteq> None) coins)"

text \<open>
  The outcomes in which a connector call has failed: no response, a timeout, a status from
  400 to 599, a body that is not JSON, or JSON without the shape relied on.
\<close>

definition call_failed :: "(json \<Rightarrow> bool) \<Rightarrow> http_outcome \<Rightarrow> bool" where
  "call_failed shape out =
     (case out of
        NetworkFailure \<Rightarrow> True
      | TimedOut \<Rightarrow> True
      | Responded r \<Rightarrow>
          (400 \<le> status_code r \<and> status_code r < 600)
          \<or> (case json_body r of None \<Rightarrow> True | Some data \<Rightarrow> \<not> shape data))"

text \<open>A price response that has \<open>ethereum\<close> and lacks \<open>bitcoin\<close>.\<close>

definition ethereum_only :: http_response where
  "ethereum_only =
     \<lparr>status_code = 200, text_body = [],
      json_body = Some (JObj [(''ethereum'', JObj [(''usd'', JInt 3000)])])\<rparr>"

section \<open>Connector states and sample ranges\<close>

text \<open>The liveness check at construction has failed: the ping said no, or something raised.\<close>

definition liveness_failed :: "es_init_outcome \<Rightarrow> bool" where
  "liveness_failed out = (case out of PingReturns b \<Rightarrow> \<not> b | _ \<Rightarrow> True)"

text \<open>A world whose database accepts connections, and the two ends of a ten-minute range.\<close>

definition reachable_db :: world where
  "reachable_db = silent_world\<lparr>pg_connect_oracle := (\<lambda>n. True)\<rparr>"

definition example_from :: datetime where
  "example_from = \<lparr>wall_us = 1704067200000000, utcoffset = Some 0\<rparr>"

definition example_to :: datetime where
  "example_to = \<lparr>wall_us = 1704067800000000, utcoffset = Some 0\<rparr>"

section \<open>Auxiliary notions for the gateway\<close>

text \<open>Two worlds with the same oracles: they differ at most in their logs and output.\<close>

definition same_env :: "world \<Rightarrow> world \<Rightarrow> bool" where
  "same_env w w' =
     (http_oracle w' = http_oracle w \<and> local_zone w' = local_zone w
      \<and> float_of_str w' = float_of_str w \<and> pg_connect_oracle w' = pg_connect_oracle w
      \<and> pg_table_oracle w' = pg_table_oracle w \<and> pg_sql_oracle w' = pg_sql_oracle w
      \<and> es_init_oracle w' = es_init_oracle w \<and> es_histogram_oracle w' = es_histogram_oracle w
      \<and> es_log_aggs_oracle w' = es_log_aggs_oracle w \<and> es_app_aggs_oracle w' = es_app_aggs_oracle w)"

text \<open>
  The state (collector and world) in which the loop over the targets reaches each
  target, in the order of the targets.
\<close>

fun target_states :: "ElasticsearchCollector \<Rightarrow> datetime \<Rightarrow> datetime \<Rightarrow> int list \<Rightarrow> string list
    \<Rightarrow> PostgreSQLCollector \<Rightarrow> world \<Rightarrow> (PostgreSQLCollector \<times> world) list" where
  "target_states es time_from time_to timestamps [] pg w = []"
| "target_states es time_from time_to timestamps (metric # rest) pg w =
     (pg, w) # target_states es time_from time_to timestamps rest
                 (fst (snd (target_datapoints es time_from time_to timestamps metric pg w)))
                 (snd (snd (target_datapoints es time_from time_to timestamps metric pg w)))"

text \<open>
  The range said in words: the \<open>k\<close>-th reading after \<open>from\<close> in steps of five minutes,
  and the timestamps of the first \<open>n\<close> readings.
\<close>

definition step_time :: "datetime \<Rightarrow> nat \<Rightarrow> datetime" where
  "step_time f k = f\<lparr>wall_us := wall_us f + int k * five_minutes\<rparr>"

definition range_timestamps :: "(int \<Rightarrow> int result) \<Rightarrow> datetime \<Rightarrow> nat \<Rightarrow> int list \<Rightarrow> bool" where
  "range_timestamps lz f n tss =
     (length tss = n \<and> (\<forall>k<n. timestamp_ms lz (step_time f k) = Inr (tss ! k)))"

text \<open>
  The number of five-minute steps from \<open>from\<close> that are not later than \<open>to\<close>, for two
  datetimes of the same kind.
\<close>

definition step_count :: "datetime \<Rightarrow> datetime \<Rightarrow> nat" where
  "step_count f t =
     (if order_key t < order_key f then 0
      else nat ((order_key t - order_key f) div five_minutes) + 1)"

text \<open>A target whose name starts with none of the five prefixes the gateway knows.\<close>

definition unmatched :: "string \<Rightarrow> bool" where
  "unmatched m =
     (\<not> prefix ''api.weather.'' m \<and> \<not> prefix ''api.crypto.'' m \<and> \<not> prefix ''api.github.'' m
      \<and> \<not> prefix ''postgres.'' m \<and> \<not> prefix ''elastic.'' m)"

text \<open>
  The values to which either jitter can be added: floats, booleans, and integers that fit
  a float.
\<close>

definition is_number :: "json \<Rightarrow> bool" where
  "is_number v =
     (case v of JInt i \<Rightarrow> fits_float i | JFloat r \<Rightarrow> True | JBool b \<Rightarrow> True | _ \<Rightarrow> False)"

text \<open>
  The \<open>i\<close>-th target of a request yields no data when its turn comes: its prefix is
  unknown, or it is a \<open>postgres.\<close> or \<open>elastic.\<close> target for which the connector,
  called in the state the loop has reached, returns no rows.
\<close>

definition rowless :: "ElasticsearchCollector \<Rightarrow> datetime \<Rightarrow> datetime \<Rightarrow> int list \<Rightarrow> string list
    \<Rightarrow> PostgreSQLCollector \<Rightarrow> world \<Rightarrow> nat \<Rightarrow> bool" where
  "rowless es f t tss ms pg w i =
     (let m = ms ! i;
          pgi = fst (target_states es f t tss ms pg w ! i);
          wi = snd (target_states es f t tss ms pg w ! i)
      in unmatched m
         \<or> (prefix ''postgres.'' m \<and> fst (pg_fetch_time_series (last_segment m) f t pgi wi) = [])
         \<or> (prefix ''elastic.'' m
             \<and> fst (es_fetch_time_series ''metrics-*'' (last_segment m) f t es wi) = []))"

text \<open>
  The same for a request: the range is the one the handler computes; and the outcome of
  the \<open>i\<close>-th step of the handler's loop, in the state the loop has reached.
\<close>

definition rowless_in :: "ElasticsearchCollector \<Rightarrow> query_request \<Rightarrow> PostgreSQLCollector \<Rightarrow> world
    \<Rightarrow> nat \<Rightarrow> bool" where
  "rowless_in es req pg w i =
     (case query_range req w of
        Inl e \<Rightarrow> False
      | Inr (f, t, tss) \<Rightarrow> rowless es f t tss (targets req) pg w i)"

definition step_result :: "ElasticsearchCollector \<Rightarrow> query_request \<Rightarrow> PostgreSQLCollector \<Rightarrow> world
    \<Rightarrow> nat \<Rightarrow> datapoint list result" where
  "step_result es req pg w i =
     (case query_range req w of
        Inl e \<Rightarrow> Inl e
      | Inr (f, t, tss) \<Rightarrow>
          fst (target_datapoints es f t tss (targets req ! i)
                 (fst (target_states es f t tss (targets req) pg w ! i))
                 (snd (target_states es f t tss (targets req) pg w ! i))))"

definition empty_series :: "string \<Rightarrow> series" where
  "empty_series m = \<lparr>target = m, datapoints = []\<rparr>"

text \<open>A request over ten minutes of 1 January 2024, and the timestamps of that range.\<close>

definition ten_minutes :: "string list \<Rightarrow> query_request" where
  "ten_minutes ms =
     \<lparr>range_from = ''2024-01-01T00:00:00Z'', range_to = ''2024-01-01T00:10:00Z'', targets = ms\<rparr>"

definition example_timestamps :: "int list" where
  "example_timestamps = [1704067200000, 1704067500000, 1704067800000]"

definition rowless_targets :: "string list" where
  "rowless_targets =
     [''unknown.thing'', ''postgres.cpu_usage'', ''elastic.total_logs'', ''api.crypto.bitcoin'']"

text \<open>A search connector whose liveness check has failed.\<close>

definition disconnected_es :: ElasticsearchCollector where
  "disconnected_es = \<lparr>es_client = True, connected_flag = False\<rparr>"

text \<open>
  A request whose range runs backwards, a list of targets of every kind, and a price
  response that has both default coins.
\<close>

definition reversed_range :: "string list \<Rightarrow> query_request" where
  "reversed_range ms =
     \<lparr>range_from = ''2024-01-01T00:10:00Z'', range_to = ''2024-01-01T00:00:00Z'', targets = ms\<rparr>"

definition price_response :: http_response where
  "price_response =
     \<lparr>status_code = 200, text_body = [],
      json_body = Some (JObj [(''bitcoin'', JObj [(''usd'', JInt 42000)]),
                              (''ethereum'', JObj [(''usd'', JFloat 2250.5)])])\<rparr>"

definition mixed_targets :: "string list" where
  "mixed_targets = [''api.crypto.bitcoin'', ''api.weather.temperature'', ''postgres.cpu_usage'',
                    ''elastic.total_logs'', ''api.other'']"

text \<open>
  The keys the weather and repository connectors put into their mappings, and the targets
  of an API family whose last dot-segment is none of the keys the connector, called with
  its default arguments, can return.
\<close>

definition weather_metrics :: "string list" where
  "weather_metrics = [''temperature'', ''wind_speed'', ''humidity'']"

definition github_metrics :: "string list" where
  "github_metrics = [''stars'', ''forks'', ''open_issues'', ''watchers'']"

definition outside_defaults :: "string \<Rightarrow> bool" where
  "outside_defaults m =
     ((prefix ''api.weather.'' m \<and> last_segment m \<notin> set weather_metrics)
      \<or> (prefix ''api.crypto.'' m \<and> last_segment m \<notin> set default_coins)
      \<or> (prefix ''api.github.'' m \<and> last_segment m \<notin> set github_metrics))"

text \<open>
  The value the API connector of a target's family hands back for the target's metric,
  when called in the world \<open>w\<close>.
\<close>

definition upstream_value :: "string \<Rightarrow> world \<Rightarrow> json option" where
  "upstream_value m w =
     (if prefix ''api.weather.'' m
      then map_of (fst (fetch_weather_data default_lat default_lon w)) (last_segment m)
      else if prefix ''api.crypto.'' m
      then map_of (fst (fetch_crypto_prices default_coins w)) (last_segment m)
      else if prefix ''api.github.'' m
      then map_of (fst (fetch_github_stats default_repo w)) (last_segment m)
      else None)"

text \<open>The response to the ten-minute request for \<open>api.crypto.bitcoin\<close> at a price of 42000.\<close>

definition bitcoin_series :: "series list" where
  "bitcoin_series =
     [\<lparr>target = ''api.crypto.bitcoin'',
       datapoints = [(41950, 1704067200000), (41950, 1704067500000), (41950, 1704067800000)]\<rparr>]"

text \<open>
  A host on New York time around the start of daylight saving time on 10 March 2024:
  \<open>timestamp()\<close> reads a naive wall clock before 03:00 of that day as standard
  time (five hours behind UTC), the skipped hour from 02:00 included, and from 03:00 on
  as daylight time (four hours behind). A request whose range, given without offset,
  spans the skipped hour.
\<close>

definition new_york_spring :: "int \<Rightarrow> int result" where
  "new_york_spring wall =
     Inr (if wall < 1710039600000000 then wall + 18000000000 else wall + 14400000000)"

definition new_york_host :: world where
  "new_york_host = (answering price_response)\<lparr>local_zone := new_york_spring\<rparr>"

definition spring_forward :: query_request where
  "spring_forward =
     \<lparr>range_from = ''2024-03-10T02:00:00'', range_to = ''2024-03-10T03:00:00'',
      targets = [''api.crypto.bitcoin'']\<rparr>"

text \<open>
  The sources hand back numbers: every value an API connector extracts from an upstream
  response is a number, and in every row of the table the \<open>metric_value\<close> converts
  with \<open>float\<close> and the timestamp, if there is one, converts with \<open>timestamp\<close>.
\<close>

definition numeric_sources :: "world \<Rightarrow> bool" where
  "numeric_sources w =
     ((\<forall>n rq r d. http_oracle w n rq = Responded r \<longrightarrow>
          (weather_fields r = Inr d \<or> crypto_fields default_coins r = Inr d \<or> github_fields r = Inr d)
          \<longrightarrow> list_all (\<lambda>kv. is_number (snd kv)) d)
      \<and> (\<forall>n rows. pg_table_oracle w n = Some rows \<longrightarrow>
            list_all (\<lambda>r. (\<exists>x. py_float (float_of_str w) (row_metric_value r) = Inr x)
                         \<and> (\<forall>ts. row_timestamp r = Some ts \<longrightarrow>
                               (\<exists>ms. timestamp_ms (local_zone w) ts = Inr ms))) rows))"

text \<open>
  The host converts every generated step of the range: always so for a range with
  offset, which needs no conversion by the host.
\<close>

definition range_converts :: "(int \<Rightarrow> int result) \<Rightarrow> datetime \<Rightarrow> datetime \<Rightarrow> bool" where
  "range_converts lz f t =
     (\<forall>k<step_count f t. \<exists>ms. timestamp_ms lz (step_time f k) = Inr ms)"

text \<open>
  The last second of the year 9999 asked of an unknown target, and a range that runs
  backwards by a day with an offset on \<open>from\<close> only.
\<close>

definition end_of_time_unknown :: query_request where
  "end_of_time_unknown =
     \<lparr>range_from = ''9999-12-31T23:59:59Z'', range_to = ''9999-12-31T23:59:59Z'',
      targets = [''unknown.thing'']\<rparr>"

definition reversed_mixed :: query_request where
  "reversed_mixed =
     \<lparr>range_from = ''2024-01-02T00:00:00Z'', range_to = ''2024-01-01T00:00:00'',
      targets = [''api.crypto.bitcoin'']\<rparr>"

text \<open>A request for the last second of the year 9999.\<close>

definition end_of_time :: query_request where
  "end_of_time =
     \<lparr>range_from = ''9999-12-31T23:59:59Z'', range_to = ''9999-12-31T23:59:59Z'',
      targets = [''api.crypto.bitcoin'']\<rparr>"

definition last_second :: datetime where
  "last_second = \<lparr>wall_us = 253402300799000000, utcoffset = Some 0\<rparr>"

section \<open>Ticket filer: properties\<close>

text \<open>
  C7. When the POST to the issue endpoint is answered with status 201 and a JSON object
  that has the key \<open>key\<close> with value \<open>k\<close>, the script prints \<open>k\<close> as the created ticket;
  for every other status it prints the status code and the raw body; in both cases it
  issues exactly that one request and exits normally.
\<close>

theorem ticket_filer_reports:
  assumes "http_oracle w (length (http_log w)) (filer_request run) = Responded response"
  shows "(status_code response = 201 \<and> json_body response = Some (JObj d) \<and> map_of d ''key'' = Some k
           \<longrightarrow> jsm_api_test run w =
                 (ExitNormally,
                  w\<lparr>http_log := http_log w @ [filer_request run],
                    stdout := stdout w @ [[PStr ''Incident created successfully:'', PJson k]]\<rparr>))
       \<and> (status_code response \<noteq> 201
           \<longrightarrow> jsm_api_test run w =
                 (ExitNormally,
                  w\<lparr>http_log := http_log w @ [filer_request run],
                    stdout := stdout w @ [[PStr ''Error:'', PNat (status_code response),
                                           PStr (text_body response)]]\<rparr>))"
  using assms
  by (simp add: jsm_api_test_def http_send_def print_line_def resp_json_def bind_result_def
        dict_get_def Let_def)

theorem ticket_filer_reports_witness:
  "jsm_api_test example_run (answering created_response)
     = (ExitNormally,
        (answering created_response)
          \<lparr>http_log := [filer_request example_run],
           stdout := [[PStr ''Incident created successfully:'', PJson (JStr ''PROJ-123'')]]\<rparr>)
   \<and> jsm_api_test example_run (answering refused_response)
     = (ExitNormally,
        (answering refused_response)
          \<lparr>http_log := [filer_request example_run],
           stdout := [[PStr ''Error:'', PNat 401, PStr ''Unauthorized'']]\<rparr>)"
  using ticket_filer_reports [of "answering created_response" example_run created_response
          "[(''key'', JStr ''PROJ-123'')]" "JStr ''PROJ-123''"]
        ticket_filer_reports [of "answering refused_response" example_run refused_response]
  by (simp add: answering_def silent_world_def created_response_def refused_response_def)

text \<open>
  C8. The value given to \<open>--email\<close> has no effect: two runs that differ only in it build
  the same request, with the credentials made of the fixed address and the API token, and
  behave the same in every world.
\<close>

theorem email_argument_ignored:
  "filer_request (run\<lparr>arg_email := e1\<rparr>) = filer_request (run\<lparr>arg_email := e2\<rparr>)
   \<and> req_auth (filer_request (run\<lparr>arg_email := e1\<rparr>))
       = Some (''almir.alitovic@logicpulse.ba'', env_API_TOKEN run)
   \<and> jsm_api_test (run\<lparr>arg_email := e1\<rparr>) w = jsm_api_test (run\<lparr>arg_email := e2\<rparr>) w"
  by (simp add: jsm_api_test_def filer_request_def Let_def)

section \<open>API connectors: properties\<close>

lemma json_getitem_obj_field:
  "json_getitem j k = (case obj_field j k of None \<Rightarrow> (case j of JObj d \<Rightarrow> Inl (KeyError k) | _ \<Rightarrow> Inl TypeError) | Some v \<Rightarrow> Inr v)"
  by (cases j) (simp_all add: obj_field_def dict_get_def split: option.splits)

lemma json_getitem_Inr: "json_getitem j k = Inr v \<longleftrightarrow> obj_field j k = Some v"
  by (cases j) (auto simp: obj_field_def dict_get_def split: option.splits)

lemma json_getitem_Inl: "(\<exists>e. json_getitem j k = Inl e) \<longleftrightarrow> obj_field j k = None"
  by (cases j) (auto simp: obj_field_def dict_get_def split: option.splits)

lemma bind_result_Inr: "bind_result r f = Inr y \<longleftrightarrow> (\<exists>x. r = Inr x \<and> f x = Inr y)"
  by (cases r) (simp_all add: bind_result_def)

lemma weather_fields_shape:
  "weather_fields resp = Inr d \<Longrightarrow>
     \<not> (400 \<le> status_code resp \<and> status_code resp < 600)
     \<and> (\<exists>data. json_body resp = Some data \<and> weather_shape data)"
  unfolding weather_fields_def bind_result_Inr json_getitem_Inr resp_json_def weather_shape_def
  by (auto split: option.splits if_splits)

lemma github_fields_shape:
  "github_fields resp = Inr d \<Longrightarrow>
     \<not> (400 \<le> status_code resp \<and> status_code resp < 600)
     \<and> (\<exists>data. json_body resp = Some data \<and> github_shape data)"
  unfolding github_fields_def bind_result_Inr json_getitem_Inr resp_json_def github_shape_def
  by (auto split: option.splits if_splits)

lemma http_send_log: "http_log (snd (http_send rq w)) = http_log w @ [rq]"
  by (simp add: http_send_def Let_def split: http_outcome.splits)

lemma http_send_fst:
  "fst (http_send rq w) =
     (case http_oracle w (length (http_log w)) rq of
        NetworkFailure \<Rightarrow> Inl ConnectionError | TimedOut \<Rightarrow> Inl Timeout | Responded r \<Rightarrow> Inr r)"
  by (simp add: http_send_def Let_def split: http_outcome.splits)

lemma print_line_http_log: "http_log (print_line l w) = http_log w"
  by (simp add: print_line_def)

lemma fetch_weather_data_unfold:
  "fetch_weather_data lat lon w =
     (let s = http_send (get_request API_SOURCES_weather (weather_params lat lon) 10) w in
      case bind_result (fst s) weather_fields of
        Inr d \<Rightarrow> (d, snd s)
      | Inl e \<Rightarrow> ([], print_line [PStr ''Weather API error:'', PExn e] (snd s)))"
  by (simp add: fetch_weather_data_def requests_get_def Let_def case_prod_beta)

lemma fetch_weather_data_log:
  "http_log (snd (fetch_weather_data lat lon w))
     = http_log w @ [get_request API_SOURCES_weather (weather_params lat lon) 10]"
  by (simp add: fetch_weather_data_unfold Let_def http_send_log print_line_http_log split: sum.splits)

lemma fetch_weather_data_failed:
  assumes "call_failed weather_shape (http_oracle w (length (http_log w))
             (get_request API_SOURCES_weather (weather_params lat lon) 10))"
  shows "fst (fetch_weather_data lat lon w) = []"
proof -
  let ?rq = "get_request API_SOURCES_weather (weather_params lat lon) 10"
  have "bind_result (fst (http_send ?rq w)) weather_fields \<noteq> Inr d" for d
    using assms
    by (auto simp: http_send_fst call_failed_def bind_result_def dest!: weather_fields_shape
          split: http_outcome.splits option.splits)
  then show ?thesis
    by (simp add: fetch_weather_data_unfold Let_def split: sum.splits)
qed

lemma fetch_github_stats_unfold:
  "fetch_github_stats repo w =
     (let s = http_send (get_request (API_SOURCES_github @ ''/'' @ repo) [] 10) w in
      case bind_result (fst s) github_fields of
        Inr d \<Rightarrow> (d, snd s)
      | Inl e \<Rightarrow> ([], print_line [PStr ''GitHub API error:'', PExn e] (snd s)))"
  by (simp add: fetch_github_stats_def requests_get_def Let_def case_prod_beta)

lemma fetch_github_stats_log:
  "http_log (snd (fetch_github_stats repo w))
     = http_log w @ [get_request (API_SOURCES_github @ ''/'' @ repo) [] 10]"
  by (simp add: fetch_github_stats_unfold Let_def http_send_log print_line_http_log split: sum.splits)

lemma fetch_github_stats_failed:
  assumes "call_failed github_shape (http_oracle w (length (http_log w))
             (get_request (API_SOURCES_github @ ''/'' @ repo) [] 10))"
  shows "fst (fetch_github_stats repo w) = []"
proof -
  let ?rq = "get_request (API_SOURCES_github @ ''/'' @ repo) [] 10"
  have "bind_result (fst (http_send ?rq w)) github_fields \<noteq> Inr d" for d
    using assms
    by (auto simp: http_send_fst call_failed_def bind_result_def dest!: github_fields_shape
          split: http_outcome.splits option.splits)
  then show ?thesis
    by (simp add: fetch_github_stats_unfold Let_def split: sum.splits)
qed

lemma crypto_comprehension_not_object:
  "\<not> is_object data \<Longrightarrow> crypto_comprehension data coins acc = Inr res \<Longrightarrow> res = acc"
proof (induction coins arbitrary: acc)
  case Nil
  then show ?case by simp
next
  case (Cons coin coins)
  then show ?case
    by (cases data) (auto simp: is_object_def bind_result_def split: if_splits)
qed

lemma crypto_comprehension_usd:
  "crypto_comprehension (JObj d) coins acc = Inr res \<Longrightarrow>
     list_all (\<lambda>coin. case map_of d coin of None \<Rightarrow> True
                        | Some entry \<Rightarrow> obj_field entry ''usd'' \<noteq> None) coins"
proof (induction coins arbitrary: acc)
  case Nil
  then show ?case by simp
next
  case (Cons coin coins)
  show ?case
  proof (cases "map_of d coin")
    case None
    with Cons.prems have "crypto_comprehension (JObj d) coins acc = Inr res"
      by (simp add: bind_result_def dict_has_def)
    from Cons.IH [OF this] None show ?thesis by simp
  next
    case (Some entry)
    with Cons.prems obtain price where
      price: "obj_field entry ''usd'' = Some price"
      and rec: "crypto_comprehension (JObj d) coins (dict_set acc coin price) = Inr res"
      by (auto simp: bind_result_Inr json_getitem_Inr dict_has_def dict_get_def)
    from Cons.IH [OF rec] Some price show ?thesis by simp
  qed
qed

lemma crypto_comprehension_keys:
  "crypto_comprehension data coins acc = Inr res \<Longrightarrow> fst ` set res \<subseteq> set coins \<union> fst ` set acc"
proof (induction coins arbitrary: acc)
  case Nil
  then show ?case by simp
next
  case (Cons coin coins)
  from Cons.prems obtain acc' where
    rec: "crypto_comprehension data coins acc' = Inr res"
    and acc': "fst ` set acc' \<subseteq> insert coin (fst ` set acc)"
    by (auto simp: bind_result_Inr dict_set_def dom_update split: if_splits)
  from Cons.IH [OF rec] acc' show ?case by auto
qed

lemma crypto_comprehension_lookup:
  "crypto_comprehension (JObj d) coins acc = Inr res \<Longrightarrow>
     map_of res c =
       (if c \<in> set coins \<and> map_of d c \<noteq> None
        then obj_field (the (map_of d c)) ''usd'' else map_of acc c)"
proof (induction coins arbitrary: acc)
  case Nil
  then show ?case by simp
next
  case (Cons coin coins)
  show ?case
  proof (cases "map_of d coin")
    case None
    with Cons.prems have "crypto_comprehension (JObj d) coins acc = Inr res"
      by (simp add: bind_result_def dict_has_def)
    from Cons.IH [OF this] None show ?thesis by auto
  next
    case (Some entry)
    with Cons.prems obtain price where
      price: "obj_field entry ''usd'' = Some price"
      and rec: "crypto_comprehension (JObj d) coins (dict_set acc coin price) = Inr res"
      by (auto simp: bind_result_Inr json_getitem_Inr dict_has_def dict_get_def)
    from Cons.IH [OF rec] Some price show ?thesis
      by (auto simp: dict_set_def update_conv')
  qed
qed

lemma crypto_fields_shape:
  assumes "crypto_fields coins resp = Inr d"
  shows "\<not> (400 \<le> status_code resp \<and> status_code resp < 600)
     \<and> (\<exists>data. json_body resp = Some data \<and> (crypto_shape coins data \<or> d = []))"
proof -
  from assms obtain data where
    st: "\<not> (400 \<le> status_code resp \<and> status_code resp < 600)"
    and body: "json_body resp = Some data"
    and comp: "crypto_comprehension data coins [] = Inr d"
    by (auto simp: crypto_fields_def bind_result_Inr resp_json_def split: if_splits option.splits)
  have "crypto_shape coins data \<or> d = []"
  proof (cases "is_object data")
    case True
    then obtain dd where "data = JObj dd" by (cases data) (simp_all add: is_object_def)
    with comp crypto_comprehension_usd [of dd coins "[]" d] show ?thesis
      by (simp add: crypto_shape_def is_object_def obj_field_def)
  next
    case False
    with comp crypto_comprehension_not_object show ?thesis by blast
  qed
  with st body show ?thesis by blast
qed

lemma fetch_crypto_prices_unfold:
  "fetch_crypto_prices coins w =
     (let s = http_send (get_request API_SOURCES_crypto (crypto_params coins) 10) w in
      case bind_result (fst s) (crypto_fields coins) of
        Inr d \<Rightarrow> (d, snd s)
      | Inl e \<Rightarrow> ([], print_line [PStr ''Crypto API error:'', PExn e] (snd s)))"
  by (simp add: fetch_crypto_prices_def requests_get_def Let_def case_prod_beta)

lemma fetch_crypto_prices_log:
  "http_log (snd (fetch_crypto_prices coins w))
     = http_log w @ [get_request API_SOURCES_crypto (crypto_params coins) 10]"
  by (simp add: fetch_crypto_prices_unfold Let_def http_send_log print_line_http_log split: sum.splits)

lemma fetch_crypto_prices_failed:
  assumes "call_failed (crypto_shape coins) (http_oracle w (length (http_log w))
             (get_request API_SOURCES_crypto (crypto_params coins) 10))"
  shows "fst (fetch_crypto_prices coins w) = []"
proof -
  let ?rq = "get_request API_SOURCES_crypto (crypto_params coins) 10"
  have "bind_result (fst (http_send ?rq w)) (crypto_fields coins) = Inr d \<Longrightarrow> d = []" for d
    using assms
    by (auto simp: http_send_fst call_failed_def bind_result_def dest!: crypto_fields_shape
          split: http_outcome.splits option.splits)
  then show ?thesis
    by (simp add: fetch_crypto_prices_unfold Let_def split: sum.splits)
qed

lemma crypto_comprehension_succeeds:
  "list_all (\<lambda>coin. case map_of d coin of None \<Rightarrow> True
                      | Some entry \<Rightarrow> obj_field entry ''usd'' \<noteq> None) coins \<Longrightarrow>
     \<exists>res. crypto_comprehension (JObj d) coins acc = Inr res"
proof (induction coins arbitrary: acc)
  case Nil
  then show ?case by simp
next
  case (Cons coin coins)
  then have rest: "list_all (\<lambda>coin. case map_of d coin of None \<Rightarrow> True
                      | Some entry \<Rightarrow> obj_field entry ''usd'' \<noteq> None) coins"
    by simp
  show ?case
  proof (cases "map_of d coin")
    case None
    with Cons.IH [OF rest, of acc] show ?thesis
      by (simp add: bind_result_def dict_has_def)
  next
    case (Some entry)
    with Cons.prems obtain price where price: "obj_field entry ''usd'' = Some price" by auto
    then have "json_getitem entry ''usd'' = Inr price" by (simp add: json_getitem_Inr)
    with Some Cons.IH [OF rest, of "dict_set acc coin price"] show ?thesis
      by (simp add: bind_result_def dict_has_def dict_get_def)
  qed
qed

lemma fetch_crypto_prices_lookup:
  assumes out: "http_oracle w (length (http_log w))
             (get_request API_SOURCES_crypto (crypto_params coins) 10) = Responded r"
    and st: "\<not> (400 \<le> status_code r \<and> status_code r < 600)"
    and body: "json_body r = Some data"
    and shape: "crypto_shape coins data"
  shows "map_of (fst (fetch_crypto_prices coins w)) c =
           (if c \<in> set coins
            then (case obj_field data c of None \<Rightarrow> None | Some entry \<Rightarrow> obj_field entry ''usd'')
            else None)"
proof -
  from shape obtain d where data: "data = JObj d"
    by (cases data) (simp_all add: crypto_shape_def is_object_def)
  from shape data have "list_all (\<lambda>coin. case map_of d coin of None \<Rightarrow> True
                      | Some entry \<Rightarrow> obj_field entry ''usd'' \<noteq> None) coins"
    by (simp add: crypto_shape_def obj_field_def)
  from crypto_comprehension_succeeds [OF this, of "[]"] obtain res where
    res: "crypto_comprehension (JObj d) coins [] = Inr res" by blast
  from st body data res have "crypto_fields coins r = Inr res"
    by (simp add: crypto_fields_def bind_result_def resp_json_def)
  with out have "fst (fetch_crypto_prices coins w) = res"
    by (simp add: fetch_crypto_prices_unfold Let_def http_send_fst bind_result_def)
  with crypto_comprehension_lookup [OF res, of c] data show ?thesis
    by (auto simp: obj_field_def split: option.splits)
qed

text \<open>
  C4 (as amended). Each API connector issues exactly one GET, with timeout 10, and
  returns the empty mapping whenever the call fails: no response, a timeout, an error
  status, a body that is not JSON, or JSON without the expected shape. For the price
  connector the expected shape asks a \<open>usd\<close> price only of the coins that are present;
  on a response of that shape the mapping holds exactly the requested coins that are
  present, each with its \<open>usd\<close> price: an absent coin is left out and the others stay.
\<close>

theorem api_connectors_contain_failures:
  "(call_failed weather_shape (http_oracle w (length (http_log w))
        (get_request API_SOURCES_weather (weather_params lat lon) 10))
      \<longrightarrow> fst (fetch_weather_data lat lon w) = [])
   \<and> http_log (snd (fetch_weather_data lat lon w))
       = http_log w @ [get_request API_SOURCES_weather (weather_params lat lon) 10]
   \<and> (call_failed (crypto_shape coins) (http_oracle w (length (http_log w))
        (get_request API_SOURCES_crypto (crypto_params coins) 10))
      \<longrightarrow> fst (fetch_crypto_prices coins w) = [])
   \<and> (http_oracle w (length (http_log w))
          (get_request API_SOURCES_crypto (crypto_params coins) 10) = Responded r
       \<and> \<not> (400 \<le> status_code r \<and> status_code r < 600)
       \<and> json_body r = Some data \<and> crypto_shape coins data
      \<longrightarrow> map_of (fst (fetch_crypto_prices coins w)) c =
            (if c \<in> set coins
             then (case obj_field data c of None \<Rightarrow> None | Some entry \<Rightarrow> obj_field entry ''usd'')
             else None))
   \<and> http_log (snd (fetch_crypto_prices coins w))
       = http_log w @ [get_request API_SOURCES_crypto (crypto_params coins) 10]
   \<and> (call_failed github_shape (http_oracle w (length (http_log w))
        (get_request (API_SOURCES_github @ ''/'' @ repo) [] 10))
      \<longrightarrow> fst (fetch_github_stats repo w) = [])
   \<and> http_log (snd (fetch_github_stats repo w))
       = http_log w @ [get_request (API_SOURCES_github @ ''/'' @ repo) [] 10]
   \<and> req_method (get_request url params 10) = ''GET''
   \<and> req_timeout (get_request url params 10) = Some 10"
proof -
  have look: "map_of (fst (fetch_crypto_prices coins w)) c =
            (if c \<in> set coins
             then (case obj_field data c of None \<Rightarrow> None | Some entry \<Rightarrow> obj_field entry ''usd'')
             else None)"
    if "http_oracle w (length (http_log w))
          (get_request API_SOURCES_crypto (crypto_params coins) 10) = Responded r
       \<and> \<not> (400 \<le> status_code r \<and> status_code r < 600)
       \<and> json_body r = Some data \<and> crypto_shape coins data"
    using that fetch_crypto_prices_lookup [of w coins r data c] by blast
  show ?thesis
    using look
    by (simp add: fetch_weather_data_failed fetch_weather_data_log fetch_crypto_prices_failed
          fetch_crypto_prices_log fetch_github_stats_failed fetch_github_stats_log get_request_def)
qed

lemma ethereum_only_shape:
  "crypto_shape default_coins (JObj [(''ethereum'', JObj [(''usd'', JInt 3000)])])"
  by (simp add: crypto_shape_def is_object_def obj_field_def default_coins_def)

theorem api_connectors_contain_failures_witness:
  "call_failed weather_shape (http_oracle silent_world (length (http_log silent_world))
        (get_request API_SOURCES_weather (weather_params default_lat default_lon) 10))
   \<and> fst (fetch_weather_data default_lat default_lon silent_world) = []
   \<and> call_failed (crypto_shape default_coins) (http_oracle silent_world (length (http_log silent_world))
        (get_request API_SOURCES_crypto (crypto_params default_coins) 10))
   \<and> fst (fetch_crypto_prices default_coins silent_world) = []
   \<and> call_failed github_shape (http_oracle silent_world (length (http_log silent_world))
        (get_request (API_SOURCES_github @ ''/'' @ default_repo) [] 10))
   \<and> fst (fetch_github_stats default_repo silent_world) = []
   \<and> http_oracle (answering ethereum_only) (length (http_log (answering ethereum_only)))
        (get_request API_SOURCES_crypto (crypto_params default_coins) 10) = Responded ethereum_only
   \<and> json_body ethereum_only = Some (JObj [(''ethereum'', JObj [(''usd'', JInt 3000)])])
   \<and> crypto_shape default_coins (JObj [(''ethereum'', JObj [(''usd'', JInt 3000)])])
   \<and> map_of (fst (fetch_crypto_prices default_coins (answering ethereum_only))) ''bitcoin'' = None
   \<and> map_of (fst (fetch_crypto_prices default_coins (answering ethereum_only))) ''ethereum''
       = Some (JInt 3000)"
  using api_connectors_contain_failures [where w = silent_world and lat = default_lat
      and lon = default_lon and coins = default_coins and repo = default_repo]
    api_connectors_contain_failures [where w = "answering ethereum_only" and coins = default_coins
      and r = ethereum_only and data = "JObj [(''ethereum'', JObj [(''usd'', JInt 3000)])]"
      and c = "''bitcoin''"]
    api_connectors_contain_failures [where w = "answering ethereum_only" and coins = default_coins
      and r = ethereum_only and data = "JObj [(''ethereum'', JObj [(''usd'', JInt 3000)])]"
      and c = "''ethereum''"]
    ethereum_only_shape
  by (simp add: silent_world_def call_failed_def answering_def ethereum_only_def obj_field_def
        default_coins_def)

text \<open>
  C4 as stated fails for the price connector: a response that lacks the requested coin
  \<open>bitcoin\<close> does not give the empty mapping, the coin is left out and the others stay.
\<close>

theorem crypto_missing_coin_counterexample:
  "obj_field (JObj [(''ethereum'', JObj [(''usd'', JInt 3000)])]) ''bitcoin'' = None
   \<and> http_oracle (answering ethereum_only) 0
        (get_request API_SOURCES_crypto (crypto_params default_coins) 10) = Responded ethereum_only
   \<and> fst (fetch_crypto_prices default_coins (answering ethereum_only)) = [(''ethereum'', JInt 3000)]"
  by (simp add: obj_field_def fetch_crypto_prices_def requests_get_def http_send_def answering_def
        silent_world_def ethereum_only_def crypto_fields_def bind_result_def resp_json_def
        default_coins_def dict_has_def dict_get_def dict_set_def Let_def)

section \<open>Search connector: properties\<close>

text \<open>
  C5. When the liveness check made at construction fails (the ping returns false, or
  the constructor or the ping raises), the flag \<open>connected\<close> is false, and every later
  call of \<open>fetch_log_metrics\<close>, \<open>fetch_time_series\<close> or \<open>fetch_application_metrics\<close>,
  in whatever world \<open>w'\<close> it is made, returns the empty result and leaves the world as
  it is: no search-engine call is issued. The three operations only read the flag (the
  collector is an argument, never a result), so it stays false.
\<close>

theorem disconnected_search_connector_is_inert:
  assumes "liveness_failed (es_init_oracle w)"
  shows "\<not> connected_flag (fst (ElasticsearchCollector_init w))
     \<and> fetch_log_metrics index1 time_field (fst (ElasticsearchCollector_init w)) w' = ([], w')
     \<and> es_fetch_time_series index2 metric_field start_time end_time
          (fst (ElasticsearchCollector_init w)) w' = ([], w')
     \<and> fetch_application_metrics str_of index3 (fst (ElasticsearchCollector_init w)) w' = ([], w')"
proof -
  have "\<not> connected_flag (fst (ElasticsearchCollector_init w))"
    using assms
    by (simp add: ElasticsearchCollector_init_def liveness_failed_def split: es_init_outcome.splits)
  then show ?thesis
    by (simp add: fetch_log_metrics_def es_fetch_time_series_def fetch_application_metrics_def)
qed

theorem disconnected_search_connector_is_inert_witness:
  "liveness_failed (es_init_oracle silent_world)
   \<and> \<not> connected_flag (fst (ElasticsearchCollector_init silent_world))
   \<and> fetch_log_metrics ''logs-*'' ''@timestamp'' (fst (ElasticsearchCollector_init silent_world))
        silent_world = ([], silent_world)
   \<and> es_fetch_time_series ''metrics-*'' ''cpu'' example_from example_to
        (fst (ElasticsearchCollector_init silent_world)) silent_world = ([], silent_world)
   \<and> fetch_application_metrics (\<lambda>j. []) ''metrics-*'' (fst (ElasticsearchCollector_init silent_world))
        silent_world = ([], silent_world)"
  using disconnected_search_connector_is_inert [of silent_world "''logs-*''" "''@timestamp''" silent_world
      "''metrics-*''" "''cpu''" example_from example_to "\<lambda>j. []" "''metrics-*''"]
  by (simp add: liveness_failed_def silent_world_def)

section \<open>Relational connector: properties\<close>

lemma ensure_connected_needed:
  "needs_connect c \<Longrightarrow>
     ensure_connected c w =
       (if pg_connect_oracle w (length (pg_log w))
        then (c\<lparr>conn := Some \<lparr>conn_id = length (pg_log w), conn_closed = False\<rparr>\<rparr>,
              w\<lparr>pg_log := pg_log w @ [PgConnect]\<rparr>)
        else (c, print_line [PStr ''PostgreSQL connection error:'', PExn DatabaseError]
                   (w\<lparr>pg_log := pg_log w @ [PgConnect]\<rparr>)))"
  by (simp add: ensure_connected_def connect_def Let_def)

lemma ensure_connected_not_needed: "\<not> needs_connect c \<Longrightarrow> ensure_connected c w = (c, w)"
  by (simp add: ensure_connected_def)

lemma open_cursor_needs_connect: "needs_connect c \<Longrightarrow> \<exists>e. open_cursor c = Inl e"
  by (auto simp: open_cursor_def needs_connect_def split: option.splits)

lemma open_cursor_open: "\<not> needs_connect c \<Longrightarrow> open_cursor c = Inr (conn_id (the (conn c)))"
  by (auto simp: open_cursor_def needs_connect_def split: option.splits)

lemma pg_fetch_time_series_reconnect:
  assumes "needs_connect c"
  shows "pg_log (snd (snd (pg_fetch_time_series m s e c w)))
       = pg_log w @ PgConnect #
           (if pg_connect_oracle w (length (pg_log w))
            then [PgExecute (length (pg_log w)) (TimeSeriesSql m s e)] else [])"
    and "\<not> pg_connect_oracle w (length (pg_log w)) \<Longrightarrow> fst (pg_fetch_time_series m s e c w) = []"
    and "pg_table_oracle w (Suc (length (pg_log w))) = None \<Longrightarrow> fst (pg_fetch_time_series m s e c w) = []"
  using assms open_cursor_needs_connect [OF assms]
  by (auto simp: pg_fetch_time_series_def ensure_connected_needed open_cursor_def print_line_def Let_def
        split: option.splits)

lemma pg_fetch_time_series_open:
  assumes "\<not> needs_connect c"
  shows "pg_log (snd (snd (pg_fetch_time_series m s e c w)))
       = pg_log w @ [PgExecute (conn_id (the (conn c))) (TimeSeriesSql m s e)]"
    and "pg_table_oracle w (length (pg_log w)) = None \<Longrightarrow> fst (pg_fetch_time_series m s e c w) = []"
  using assms
  by (auto simp: pg_fetch_time_series_def ensure_connected_not_needed open_cursor_open print_line_def Let_def
        split: option.splits)

lemma fetch_metrics_reconnect:
  assumes "needs_connect c"
  shows "pg_log (snd (snd (fetch_metrics q c w)))
       = pg_log w @ PgConnect #
           (if pg_connect_oracle w (length (pg_log w))
            then [PgExecute (length (pg_log w)) (Sql (metrics_sql q))] else [])"
    and "\<not> pg_connect_oracle w (length (pg_log w)) \<Longrightarrow> fst (fetch_metrics q c w) = []"
    and "pg_sql_oracle w (Suc (length (pg_log w))) (metrics_sql q) = None \<Longrightarrow> fst (fetch_metrics q c w) = []"
  using assms open_cursor_needs_connect [OF assms]
  by (auto simp: fetch_metrics_def ensure_connected_needed open_cursor_def print_line_def Let_def
        split: option.splits)

lemma fetch_metrics_open:
  assumes "\<not> needs_connect c"
  shows "pg_log (snd (snd (fetch_metrics q c w)))
       = pg_log w @ [PgExecute (conn_id (the (conn c))) (Sql (metrics_sql q))]"
    and "pg_sql_oracle w (length (pg_log w)) (metrics_sql q) = None \<Longrightarrow> fst (fetch_metrics q c w) = []"
  using assms
  by (auto simp: fetch_metrics_def ensure_connected_not_needed open_cursor_open print_line_def Let_def
        split: option.splits)

text \<open>
  C6. In \<open>fetch_time_series\<close> and \<open>fetch_metrics\<close>: when the handle is absent or
  closed, a connection attempt comes first, and the statement is executed on the new
  connection if the attempt succeeds; with an open handle the statement is executed on
  it. A failed connection attempt and a failed execution both end in the empty list,
  the value of a query without rows.
\<close>

theorem relational_reads_reconnect_and_swallow:
  "(needs_connect c \<longrightarrow>
      pg_log (snd (snd (pg_fetch_time_series m s e c w)))
        = pg_log w @ PgConnect #
            (if pg_connect_oracle w (length (pg_log w))
             then [PgExecute (length (pg_log w)) (TimeSeriesSql m s e)] else [])
      \<and> (\<not> pg_connect_oracle w (length (pg_log w)) \<longrightarrow> fst (pg_fetch_time_series m s e c w) = [])
      \<and> (pg_table_oracle w (Suc (length (pg_log w))) = None \<longrightarrow> fst (pg_fetch_time_series m s e c w) = [])
      \<and> pg_log (snd (snd (fetch_metrics q c w)))
        = pg_log w @ PgConnect #
            (if pg_connect_oracle w (length (pg_log w))
             then [PgExecute (length (pg_log w)) (Sql (metrics_sql q))] else [])
      \<and> (\<not> pg_connect_oracle w (length (pg_log w)) \<longrightarrow> fst (fetch_metrics q c w) = [])
      \<and> (pg_sql_oracle w (Suc (length (pg_log w))) (metrics_sql q) = None \<longrightarrow> fst (fetch_metrics q c w) = []))
   \<and> (\<not> needs_connect c \<longrightarrow>
      pg_log (snd (snd (pg_fetch_time_series m s e c w)))
        = pg_log w @ [PgExecute (conn_id (the (conn c))) (TimeSeriesSql m s e)]
      \<and> (pg_table_oracle w (length (pg_log w)) = None \<longrightarrow> fst (pg_fetch_time_series m s e c w) = [])
      \<and> pg_log (snd (snd (fetch_metrics q c w)))
        = pg_log w @ [PgExecute (conn_id (the (conn c))) (Sql (metrics_sql q))]
      \<and> (pg_sql_oracle w (length (pg_log w)) (metrics_sql q) = None \<longrightarrow> fst (fetch_metrics q c w) = []))"
  using pg_fetch_time_series_reconnect [where c = c and m = m and s = s and e = e and w = w]
    pg_fetch_time_series_open [where c = c and m = m and s = s and e = e and w = w]
    fetch_metrics_reconnect [where c = c and q = q and w = w]
    fetch_metrics_open [where c = c and q = q and w = w]
  by blast

theorem relational_reads_reconnect_and_swallow_witness:
  "needs_connect PostgreSQLCollector_init
   \<and> pg_log (snd (snd (pg_fetch_time_series ''cpu_usage'' example_from example_to
         PostgreSQLCollector_init reachable_db)))
       = [PgConnect, PgExecute 0 (TimeSeriesSql ''cpu_usage'' example_from example_to)]
   \<and> pg_table_oracle reachable_db 1 = None
   \<and> fst (pg_fetch_time_series ''cpu_usage'' example_from example_to PostgreSQLCollector_init reachable_db) = []
   \<and> \<not> pg_connect_oracle silent_world 0
   \<and> fst (fetch_metrics None PostgreSQLCollector_init silent_world) = []
   \<and> pg_log (snd (snd (fetch_metrics None PostgreSQLCollector_init silent_world))) = [PgConnect]
   \<and> \<not> needs_connect \<lparr>conn = Some \<lparr>conn_id = 7, conn_closed = False\<rparr>\<rparr>
   \<and> fst (fetch_metrics None \<lparr>conn = Some \<lparr>conn_id = 7, conn_closed = False\<rparr>\<rparr> silent_world) = []
   \<and> pg_log (snd (snd (fetch_metrics None \<lparr>conn = Some \<lparr>conn_id = 7, conn_closed = False\<rparr>\<rparr> silent_world)))
       = [PgExecute 7 (Sql DEFAULT_METRICS_SQL)]"
  using relational_reads_reconnect_and_swallow [where c = PostgreSQLCollector_init and m = "''cpu_usage''"
          and s = example_from and e = example_to and w = reachable_db and q = None]
        relational_reads_reconnect_and_swallow [where c = PostgreSQLCollector_init and m = "''cpu_usage''"
          and s = example_from and e = example_to and w = silent_world and q = None]
        relational_reads_reconnect_and_swallow [where c = "\<lparr>conn = Some \<lparr>conn_id = 7, conn_closed = False\<rparr>\<rparr>"
          and m = "''cpu_usage''" and s = example_from and e = example_to and w = silent_world and q = None]
  by (simp add: needs_connect_def PostgreSQLCollector_init_def reachable_db_def silent_world_def metrics_sql_def)

section \<open>Query gateway: the loop over the targets\<close>

lemma query_targets_Cons_Inr:
  "query_targets es f t tss (m # ms) acc pg w = (Inr res, pg', w') \<longleftrightarrow>
     (\<exists>dps. fst (target_datapoints es f t tss m pg w) = Inr dps
        \<and> query_targets es f t tss ms (acc @ [\<lparr>target = m, datapoints = dps\<rparr>])
             (fst (snd (target_datapoints es f t tss m pg w)))
             (snd (snd (target_datapoints es f t tss m pg w))) = (Inr res, pg', w'))"
  by (cases "target_datapoints es f t tss m pg w") (auto split: sum.splits)

lemma query_targets_shape:
  "query_targets es f t tss ms acc pg w = (Inr res, pg', w') \<Longrightarrow>
     length res = length acc + length ms \<and> take (length acc) res = acc
     \<and> map target (drop (length acc) res) = ms"
proof (induction ms arbitrary: acc pg w)
  case Nil
  then show ?case by simp
next
  case (Cons m ms)
  from Cons.prems obtain dps pg1 w1 where
    rec: "query_targets es f t tss ms (acc @ [\<lparr>target = m, datapoints = dps\<rparr>]) pg1 w1 = (Inr res, pg', w')"
    unfolding query_targets_Cons_Inr by blast
  from Cons.IH [OF rec] have len: "length res = Suc (length acc) + length ms"
    and tk: "take (Suc (length acc)) res = acc @ [\<lparr>target = m, datapoints = dps\<rparr>]"
    and dr: "map target (drop (Suc (length acc)) res) = ms"
    by simp_all
  have "take (length acc) (take (Suc (length acc)) res)
          = take (length acc) (acc @ [\<lparr>target = m, datapoints = dps\<rparr>])"
    by (simp only: tk)
  then have tk': "take (length acc) res = acc"
    by (simp add: min_def)
  from tk len have nth: "res ! length acc = \<lparr>target = m, datapoints = dps\<rparr>"
    by (metis lessI nth_append_length nth_take)
  have "drop (length acc) res = res ! length acc # drop (Suc (length acc)) res"
    using len by (simp add: Cons_nth_drop_Suc)
  with nth dr len tk' show ?case by simp
qed

lemma query_targets_entries:
  "query_targets es f t tss ms acc pg w = (Inr res, pg', w') \<Longrightarrow> i < length ms \<Longrightarrow>
     fst (target_datapoints es f t tss (ms ! i)
            (fst (target_states es f t tss ms pg w ! i))
            (snd (target_states es f t tss ms pg w ! i)))
       = Inr (datapoints (res ! (length acc + i)))"
proof (induction ms arbitrary: acc pg w i)
  case Nil
  then show ?case by simp
next
  case (Cons m ms)
  let ?r = "target_datapoints es f t tss m pg w"
  from Cons.prems(1) obtain dps where
    dps: "fst ?r = Inr dps"
    and rec: "query_targets es f t tss ms (acc @ [\<lparr>target = m, datapoints = dps\<rparr>])
                (fst (snd ?r)) (snd (snd ?r)) = (Inr res, pg', w')"
    unfolding query_targets_Cons_Inr by blast
  show ?case
  proof (cases i)
    case 0
    from query_targets_shape [OF rec] have "res ! length acc = \<lparr>target = m, datapoints = dps\<rparr>"
      by (metis length_append_singleton lessI nth_append_length nth_take)
    with 0 dps show ?thesis by simp
  next
    case (Suc j)
    with Cons.prems(2) have "j < length ms" by simp
    from Cons.IH [OF rec this] Suc show ?thesis by simp
  qed
qed

lemma query_targets_succeeds:
  "(\<forall>i<length ms. \<exists>dps. fst (target_datapoints es f t tss (ms ! i)
            (fst (target_states es f t tss ms pg w ! i))
            (snd (target_states es f t tss ms pg w ! i))) = Inr dps) \<Longrightarrow>
   \<exists>res pg' w'. query_targets es f t tss ms acc pg w = (Inr res, pg', w')"
proof (induction ms arbitrary: acc pg w)
  case Nil
  then show ?case by simp
next
  case (Cons m ms)
  let ?r = "target_datapoints es f t tss m pg w"
  from Cons.prems [rule_format, of 0] obtain dps where dps: "fst ?r = Inr dps" by auto
  have "\<forall>i<length ms. \<exists>dps. fst (target_datapoints es f t tss (ms ! i)
            (fst (target_states es f t tss ms (fst (snd ?r)) (snd (snd ?r)) ! i))
            (snd (target_states es f t tss ms (fst (snd ?r)) (snd (snd ?r)) ! i))) = Inr dps"
    using Cons.prems [rule_format, of "Suc _"] by simp
  from Cons.IH [OF this, of "acc @ [\<lparr>target = m, datapoints = dps\<rparr>]"] dps
  show ?case unfolding query_targets_Cons_Inr by blast
qed

lemma same_env_refl: "same_env w w"
  by (simp add: same_env_def)

lemma same_env_trans: "same_env w w1 \<Longrightarrow> same_env w1 w2 \<Longrightarrow> same_env w w2"
  by (simp add: same_env_def)

lemma same_env_print_line: "same_env w (print_line l w)"
  by (simp add: same_env_def print_line_def)

lemma same_env_http_send: "same_env w (snd (http_send rq w))"
  by (simp add: same_env_def http_send_def Let_def split: http_outcome.splits)

lemma same_env_fetch_weather_data: "same_env w (snd (fetch_weather_data lat lon w))"
  by (simp add: fetch_weather_data_unfold same_env_def print_line_def http_send_def Let_def
        split: sum.splits http_outcome.splits)

lemma same_env_fetch_crypto_prices: "same_env w (snd (fetch_crypto_prices coins w))"
  by (simp add: fetch_crypto_prices_unfold same_env_def print_line_def http_send_def Let_def
        split: sum.splits http_outcome.splits)

lemma same_env_fetch_github_stats: "same_env w (snd (fetch_github_stats repo w))"
  by (simp add: fetch_github_stats_unfold same_env_def print_line_def http_send_def Let_def
        split: sum.splits http_outcome.splits)

lemma same_env_ensure_connected: "same_env w (snd (ensure_connected c w))"
  by (simp add: ensure_connected_def connect_def same_env_def print_line_def Let_def)

lemma same_env_pg_fetch_time_series: "same_env w (snd (snd (pg_fetch_time_series m s e c w)))"
proof -
  have "same_env w (snd (ensure_connected c w))" by (rule same_env_ensure_connected)
  then show ?thesis
    by (auto simp: pg_fetch_time_series_def same_env_def print_line_def Let_def case_prod_beta
          split: sum.splits option.splits)
qed

lemma same_env_es_fetch_time_series: "same_env w (snd (es_fetch_time_series ix m s e c w))"
  by (auto simp: es_fetch_time_series_def es_search_def same_env_def print_line_def Let_def
        split: sum.splits option.splits)

lemma same_env_target_datapoints: "same_env w (snd (snd (target_datapoints es f t tss m pg w)))"
  using same_env_fetch_weather_data [of w default_lat default_lon]
    same_env_fetch_crypto_prices [of w default_coins]
    same_env_fetch_github_stats [of w default_repo]
    same_env_pg_fetch_time_series [of w "last_segment m" f t pg]
    same_env_es_fetch_time_series [of w "''metrics-*''" "last_segment m" f t es]
  by (auto simp: target_datapoints_def same_env_refl Let_def split: prod.splits)

lemma same_env_target_states:
  "i < length ms \<Longrightarrow> same_env w (snd (target_states es f t tss ms pg w ! i))"
proof (induction ms arbitrary: pg w i)
  case Nil
  then show ?case by simp
next
  case (Cons m ms)
  show ?case
  proof (cases i)
    case 0
    then show ?thesis by (simp add: same_env_refl)
  next
    case (Suc j)
    let ?r = "target_datapoints es f t tss m pg w"
    from Suc Cons.prems have "j < length ms" by simp
    from Cons.IH [OF this]
    have "same_env (snd (snd ?r)) (snd (target_states es f t tss ms (fst (snd ?r)) (snd (snd ?r)) ! j))" .
    with same_env_target_datapoints [of w es f t tss m pg]
    have "same_env w (snd (target_states es f t tss ms (fst (snd ?r)) (snd (snd ?r)) ! j))"
      by (rule same_env_trans)
    with Suc show ?thesis by simp
  qed
qed

section \<open>Query gateway: the generated timestamps\<close>

lemma step_time_0: "step_time f 0 = f"
  by (simp add: step_time_def)

lemma step_time_Suc:
  "step_time (f\<lparr>wall_us := wall_us f + five_minutes\<rparr>) k = step_time f (Suc k)"
  by (simp add: step_time_def algebra_simps)

lemma dt_add_Inr: "dt_add a d = Inr b \<Longrightarrow> b = a\<lparr>wall_us := wall_us a + d\<rparr>"
  by (simp add: dt_add_def split: if_splits)

lemma range_timestamps_0: "range_timestamps lz f 0 tss \<longleftrightarrow> tss = []"
  by (simp add: range_timestamps_def)

lemma range_timestamps_Suc:
  "timestamp_ms lz f = Inr ts \<Longrightarrow>
   range_timestamps lz (f\<lparr>wall_us := wall_us f + five_minutes\<rparr>) n tss \<Longrightarrow>
   range_timestamps lz f (Suc n) (ts # tss)"
  unfolding range_timestamps_def
proof (intro conjI allI impI)
  assume a: "timestamp_ms lz f = Inr ts"
    and b: "length tss = n \<and>
      (\<forall>k<n. timestamp_ms lz (step_time (f\<lparr>wall_us := wall_us f + five_minutes\<rparr>) k) = Inr (tss ! k))"
  from b show "length (ts # tss) = Suc n" by simp
  fix k assume k: "k < Suc n"
  show "timestamp_ms lz (step_time f k) = Inr ((ts # tss) ! k)"
  proof (cases k)
    case 0
    with a show ?thesis by (simp add: step_time_0)
  next
    case (Suc j)
    with k b show ?thesis by (simp add: step_time_Suc)
  qed
qed

lemma gen_timestamps_unfold:
  "dt_le cur t = Inr True \<Longrightarrow> timestamp_ms lz cur = Inr ts \<Longrightarrow>
   dt_add cur five_minutes = Inr nxt \<Longrightarrow>
   gen_timestamps lz cur t acc = gen_timestamps lz nxt t (acc @ [ts])"
  by (simp add: gen_timestamps.simps [of lz cur t acc])

lemma gen_timestamps_step:
  assumes "gen_timestamps lz cur t acc = Inr tss" and "dt_le cur t = Inr True"
  shows "\<exists>ts. timestamp_ms lz cur = Inr ts
       \<and> dt_add cur five_minutes = Inr (cur\<lparr>wall_us := wall_us cur + five_minutes\<rparr>)
       \<and> gen_timestamps lz (cur\<lparr>wall_us := wall_us cur + five_minutes\<rparr>) t (acc @ [ts]) = Inr tss"
proof -
  from assms obtain ts nxt where
    ts: "timestamp_ms lz cur = Inr ts" and nxt: "dt_add cur five_minutes = Inr nxt"
    and rec: "gen_timestamps lz nxt t (acc @ [ts]) = Inr tss"
    by (auto simp: gen_timestamps.simps [of lz cur t acc] split: sum.splits)
  from dt_add_Inr [OF nxt] ts nxt rec show ?thesis by auto
qed

lemma gen_timestamps_Inr:
  "gen_timestamps lz cur t acc = Inr tss \<Longrightarrow>
     \<exists>n tl. tss = acc @ tl \<and> range_timestamps lz cur n tl
         \<and> (\<forall>k<n. dt_le (step_time cur k) t = Inr True)
         \<and> dt_le (step_time cur n) t = Inr False"
proof (induction lz cur t acc rule: gen_timestamps.induct)
  case (1 lz cur t acc)
  show ?case
  proof (cases "dt_le cur t")
    case (Inl e)
    with "1.prems" show ?thesis by (simp add: gen_timestamps.simps)
  next
    case (Inr b)
    show ?thesis
    proof (cases b)
      case False
      with Inr "1.prems" have "tss = acc" by (simp add: gen_timestamps.simps)
      with Inr False show ?thesis
        by (intro exI [of _ 0] exI [of _ "[]"]) (simp add: range_timestamps_0 step_time_0)
    next
      case True
      let ?nxt = "cur\<lparr>wall_us := wall_us cur + five_minutes\<rparr>"
      from True Inr have le0: "dt_le cur t = Inr True" by simp
      from gen_timestamps_step [OF "1.prems" le0] obtain ts where
        ts: "timestamp_ms lz cur = Inr ts"
        and nxt: "dt_add cur five_minutes = Inr ?nxt"
        and rec: "gen_timestamps lz ?nxt t (acc @ [ts]) = Inr tss"
        by blast
      from True have bT: "b = True" by simp
      from "1.IH" [OF Inr bT ts nxt rec] obtain n tl where
        tss: "tss = (acc @ [ts]) @ tl"
        and rng: "range_timestamps lz ?nxt n tl"
        and le: "\<forall>k<n. dt_le (step_time ?nxt k) t = Inr True"
        and stop: "dt_le (step_time ?nxt n) t = Inr False"
        by blast
      have "tss = acc @ (ts # tl)" using tss by simp
      moreover have "range_timestamps lz cur (Suc n) (ts # tl)"
        using ts rng by (rule range_timestamps_Suc)
      moreover have "\<forall>k<Suc n. dt_le (step_time cur k) t = Inr True"
      proof (intro allI impI)
        fix k assume "k < Suc n"
        show "dt_le (step_time cur k) t = Inr True"
        proof (cases k)
          case 0
          with le0 show ?thesis by (simp add: step_time_0)
        next
          case (Suc j)
          with \<open>k < Suc n\<close> le show ?thesis by (simp add: step_time_Suc)
        qed
      qed
      moreover have "dt_le (step_time cur (Suc n)) t = Inr False"
        using stop by (simp add: step_time_Suc)
      ultimately show ?thesis by blast
    qed
  qed
qed

lemma gen_timestamps_later: "dt_le f t = Inr False \<Longrightarrow> gen_timestamps lz f t acc = Inr acc"
  by (simp add: gen_timestamps.simps)

lemma five_minutes_eq: "five_minutes = 300000000"
  by (simp add: five_minutes_def us_per_second_def)

lemma dt_le_order_key:
  "(utcoffset a = None) = (utcoffset b = None) \<Longrightarrow> dt_le a b = Inr (order_key a \<le> order_key b)"
  by (auto simp: dt_le_def order_key_def split: option.splits)

lemma dt_le_Inr_kind: "dt_le a b = Inr c \<Longrightarrow> (utcoffset a = None) = (utcoffset b = None)"
  by (auto simp: dt_le_def split: option.splits)

lemma order_key_step: "order_key (a\<lparr>wall_us := wall_us a + d\<rparr>) = order_key a + d"
  by (simp add: order_key_def split: option.splits)

lemma step_count_0: "step_count f t = 0 \<longleftrightarrow> order_key t < order_key f"
  by (simp add: step_count_def)

lemma step_count_next:
  assumes "order_key f \<le> order_key t"
  shows "step_count (f\<lparr>wall_us := wall_us f + five_minutes\<rparr>) t = step_count f t - 1"
proof -
  define d where "d = order_key t - order_key f"
  have d0: "0 \<le> d" using assms by (simp add: d_def)
  show ?thesis
  proof (cases "d < 300000000")
    case True
    with d0 have "d div 300000000 = 0" by simp
    with True show ?thesis
      using assms by (simp add: step_count_def order_key_step five_minutes_eq d_def)
  next
    case False
    then have "(d - 300000000) div 300000000 = d div 300000000 - 1"
      by (simp add: div_diff)
    moreover from False have "1 \<le> d div 300000000"
      by (simp add: pos_imp_zdiv_pos_iff)
    ultimately show ?thesis
      using assms False
      by (simp add: step_count_def order_key_step five_minutes_eq d_def algebra_simps nat_diff_distrib')
  qed
qed

lemma gen_timestamps_succeeds_aux:
  "step_count cur t = n \<Longrightarrow> (utcoffset cur = None) = (utcoffset t = None) \<Longrightarrow>
   MIN_WALL \<le> wall_us cur \<Longrightarrow> wall_us cur + int n * five_minutes \<le> MAX_WALL \<Longrightarrow>
   (\<forall>k<n. \<exists>ms. timestamp_ms lz (step_time cur k) = Inr ms) \<Longrightarrow>
   \<exists>tss. gen_timestamps lz cur t acc = Inr tss"
proof (induction n arbitrary: cur acc)
  case 0
  then have "dt_le cur t = Inr False"
    by (simp add: dt_le_order_key step_count_0)
  then show ?case by (simp add: gen_timestamps_later)
next
  case (Suc n)
  let ?nxt = "cur\<lparr>wall_us := wall_us cur + five_minutes\<rparr>"
  from Suc.prems(1) have key: "order_key cur \<le> order_key t"
    by (simp add: step_count_def split: if_splits)
  with Suc.prems(2) have le: "dt_le cur t = Inr True"
    by (simp add: dt_le_order_key)
  from Suc.prems(5) [rule_format, of 0] obtain ts where ts: "timestamp_ms lz cur = Inr ts"
    by (auto simp: step_time_0)
  from Suc.prems(3,4) have add: "dt_add cur five_minutes = Inr ?nxt"
    by (simp add: dt_add_def five_minutes_eq algebra_simps)
  have "\<exists>tss. gen_timestamps lz ?nxt t (acc @ [ts]) = Inr tss"
  proof (rule Suc.IH)
    show "step_count ?nxt t = n"
      using step_count_next [OF key] Suc.prems(1) by simp
    show "(utcoffset ?nxt = None) = (utcoffset t = None)"
      using Suc.prems(2) by simp
    show "MIN_WALL \<le> wall_us ?nxt"
      using Suc.prems(3) by (simp add: five_minutes_eq)
    show "wall_us ?nxt + int n * five_minutes \<le> MAX_WALL"
      using Suc.prems(4) by (simp add: algebra_simps)
    show "\<forall>k<n. \<exists>ms. timestamp_ms lz (step_time ?nxt k) = Inr ms"
      using Suc.prems(5) by (simp add: step_time_Suc)
  qed
  with gen_timestamps_unfold [OF le ts add] show ?case by simp
qed

lemma gen_timestamps_succeeds:
  assumes "(utcoffset f = None) = (utcoffset t = None)"
    and "MIN_WALL \<le> wall_us f"
    and "wall_us f + int (step_count f t) * five_minutes \<le> MAX_WALL"
    and "range_converts lz f t"
  shows "\<exists>tss. gen_timestamps lz f t acc = Inr tss"
  using gen_timestamps_succeeds_aux [OF refl assms(1-3), of lz acc] assms(4)
  by (simp add: range_converts_def)

lemma range_converts_aware: "utcoffset f = Some off \<Longrightarrow> range_converts lz f t"
  by (simp add: range_converts_def timestamp_ms_def timestamp_us_def step_time_def)

lemma trunc_div_strict:
  "a + 2000 \<le> b \<Longrightarrow> trunc_div a 1000 < trunc_div b 1000"
  unfolding trunc_div_def by (auto; linarith)

lemma range_timestamps_increasing:
  assumes "utcoffset f = Some off" and "range_timestamps lz f n tss"
  shows "sorted_wrt (<) tss"
proof -
  have val: "tss ! k = trunc_div (wall_us f + int k * five_minutes - off) 1000" if "k < n" for k
    using assms that
    by (simp add: range_timestamps_def timestamp_ms_def timestamp_us_def step_time_def)
  have "tss ! i < tss ! j" if "i < j" and "j < length tss" for i j
  proof -
    from that assms(2) have j: "j < n" and i: "i < n" by (simp_all add: range_timestamps_def)
    from that have "int i + 1 \<le> int j" by simp
    then have "int i * 300000000 + 300000000 \<le> int j * 300000000" by simp
    then have "(wall_us f + int i * five_minutes - off) + 2000
                 \<le> wall_us f + int j * five_minutes - off"
      by (simp add: five_minutes_eq)
    from trunc_div_strict [OF this] val [OF i] val [OF j] show ?thesis by simp
  qed
  then show ?thesis by (simp add: sorted_wrt_iff_nth_less)
qed

lemma dt_le_trans:
  "dt_le a b = Inr True \<Longrightarrow> dt_le b c = Inr True \<Longrightarrow> dt_le a c = Inr True"
  by (auto simp: dt_le_def split: option.splits)

lemma select_time_series_later:
  assumes "dt_le s e = Inr False"
  shows "select_time_series name s e rows = []"
proof -
  have "\<not> (dt_le s t = Inr True \<and> dt_le t e = Inr True)" for t
    using dt_le_trans [of s t e] assms by auto
  then have "List.map_filter
          (\<lambda>r. case (row_metric_name r, row_timestamp r) of
                  (Some n, Some t) \<Rightarrow>
                    if n = name \<and> dt_le s t = Inr True \<and> dt_le t e = Inr True
                    then Some \<lparr>ts_timestamp = t, ts_metric_value = row_metric_value r\<rparr>
                    else None
                | _ \<Rightarrow> None)
          rows = []"
    by (induction rows) (auto simp: List.map_filter_simps split: option.splits)
  then show ?thesis
    by (simp add: select_time_series_def)
qed

lemma days_from_civil_lower:
  assumes "1 \<le> y" "1 \<le> m" "m \<le> 12" "1 \<le> d"
  shows "- 719162 \<le> days_from_civil y m d"
proof -
  define y' where "y' = (if m \<le> 2 then y - 1 else y)"
  define yoe where "yoe = y' - y' div 400 * 400"
  define doy where "doy = (153 * (if m > 2 then m - 3 else m + 9) + 2) div 5 + d - 1"
  have y'0: "0 \<le> y'" using assms by (simp add: y'_def)
  then have era: "0 \<le> y' div 400" by simp
  have yoe_mod: "yoe = y' mod 400" by (simp add: yoe_def minus_div_mult_eq_mod)
  then have yoe0: "0 \<le> yoe" by simp
  have q: "yoe div 100 \<le> yoe div 4" using yoe0 by linarith
  have doy0: "0 \<le> doy" using assms unfolding doy_def by (cases "m > 2") (simp; linarith)+
  have "306 \<le> y' div 400 * 146097 + (yoe * 365 + yoe div 4 - yoe div 100 + doy)"
  proof (cases "y' = 0")
    case True
    then have "m \<le> 2" using assms by (simp add: y'_def split: if_splits)
    then have "306 \<le> doy" using assms unfolding doy_def by (simp; linarith)
    with True yoe_mod q show ?thesis by simp
  next
    case False
    with y'0 have "1 \<le> y'" by simp
    then have "1 \<le> y' div 400 \<or> 1 \<le> yoe" unfolding yoe_mod by presburger
    with era yoe0 q doy0 show ?thesis by linarith
  qed
  moreover have "days_from_civil y m d
      = y' div 400 * 146097 + (yoe * 365 + yoe div 4 - yoe div 100 + doy) - 719468"
    unfolding days_from_civil_def Let_def y'_def yoe_def doy_def by simp
  ultimately show ?thesis by linarith
qed

lemma parse_isoformat_date_range:
  "parse_isoformat_date s = Some (y, m, d) \<Longrightarrow> 1 \<le> y \<and> 1 \<le> m \<and> m \<le> 12 \<and> 1 \<le> d"
  by (auto simp: parse_isoformat_date_def split: if_splits option.splits)

lemma parse_hh_mm_ss_ff_nonneg:
  "parse_hh_mm_ss_ff s = Some (h, m, sec, f) \<Longrightarrow> 0 \<le> h \<and> 0 \<le> m \<and> 0 \<le> sec \<and> 0 \<le> f"
  unfolding parse_hh_mm_ss_ff_def Let_def
  by (auto split: if_splits option.splits)

lemma parse_isoformat_time_nonneg:
  assumes "parse_isoformat_time s = Some (t, off)"
  shows "0 \<le> t"
proof -
  from assms obtain h m sec f where
    p: "parse_hh_mm_ss_ff (takeWhile (\<lambda>c. \<not> is_sign c) s) = Some (h, m, sec, f)"
    and t: "t = ((h * 60 + m) * 60 + sec) * us_per_second + f"
    by (auto simp: parse_isoformat_time_def Let_def split: option.splits if_splits list.splits)
  from parse_hh_mm_ss_ff_nonneg [OF p] t show ?thesis
    by (simp add: us_per_second_def)
qed

lemma MIN_WALL_eq: "MIN_WALL = - 719162 * us_per_day"
  by (simp add: MIN_WALL_def days_from_civil_def Let_def)

lemma fromisoformat_lower:
  assumes "fromisoformat s = Inr f"
  shows "MIN_WALL \<le> wall_us f"
proof -
  from assms obtain y m d where
    date: "parse_isoformat_date (take 10 s) = Some (y, m, d)"
    by (auto simp: fromisoformat_def split: option.splits)
  from parse_isoformat_date_range [OF date] have "- 719162 \<le> days_from_civil y m d"
    by (intro days_from_civil_lower) simp_all
  then have day: "MIN_WALL \<le> days_from_civil y m d * us_per_day"
    by (simp add: MIN_WALL_eq us_per_day_def)
  show ?thesis
  proof (cases "length s \<le> 10")
    case True
    with assms date day show ?thesis
      by (auto simp: fromisoformat_def Let_def)
  next
    case False
    with assms date obtain t off where
      time: "parse_isoformat_time (drop 11 s) = Some (t, off)"
      and f: "f = \<lparr>wall_us = days_from_civil y m d * us_per_day + t, utcoffset = off\<rparr>"
      by (auto simp: fromisoformat_def Let_def split: option.splits)
    from parse_isoformat_time_nonneg [OF time] day f show ?thesis by simp
  qed
qed

section \<open>Query gateway: one target\<close>

lemma prefix_crypto: "prefix ''api.crypto.'' m \<Longrightarrow> \<not> prefix ''api.weather.'' m"
  by (auto simp: prefix_def)

lemma prefix_github:
  "prefix ''api.github.'' m \<Longrightarrow> \<not> prefix ''api.weather.'' m \<and> \<not> prefix ''api.crypto.'' m"
  by (auto simp: prefix_def)

lemma prefix_postgres:
  "prefix ''postgres.'' m \<Longrightarrow>
     \<not> prefix ''api.weather.'' m \<and> \<not> prefix ''api.crypto.'' m \<and> \<not> prefix ''api.github.'' m"
  by (auto simp: prefix_def)

lemma prefix_elastic:
  "prefix ''elastic.'' m \<Longrightarrow>
     \<not> prefix ''api.weather.'' m \<and> \<not> prefix ''api.crypto.'' m \<and> \<not> prefix ''api.github.'' m
     \<and> \<not> prefix ''postgres.'' m"
  by (auto simp: prefix_def)

lemma prefix_api:
  "prefix ''api.'' m \<Longrightarrow> \<not> prefix ''postgres.'' m \<and> \<not> prefix ''elastic.'' m"
  by (auto simp: prefix_def)

lemma target_datapoints_weather:
  "prefix ''api.weather.'' m \<Longrightarrow>
     fst (target_datapoints es f t tss m pg w)
       = api_series (fst (fetch_weather_data default_lat default_lon w)) (last_segment m)
           weather_jitter tss"
  by (simp add: target_datapoints_def case_prod_beta)

lemma target_datapoints_crypto:
  "prefix ''api.crypto.'' m \<Longrightarrow>
     fst (target_datapoints es f t tss m pg w)
       = api_series (fst (fetch_crypto_prices default_coins w)) (last_segment m) crypto_jitter tss"
  by (simp add: target_datapoints_def case_prod_beta prefix_crypto)

lemma target_datapoints_github:
  "prefix ''api.github.'' m \<Longrightarrow>
     fst (target_datapoints es f t tss m pg w)
       = api_series (fst (fetch_github_stats default_repo w)) (last_segment m) github_jitter tss"
  by (simp add: target_datapoints_def case_prod_beta prefix_github)

lemma target_datapoints_postgres:
  "prefix ''postgres.'' m \<Longrightarrow>
     fst (target_datapoints es f t tss m pg w)
       = pg_datapoints (local_zone w) (float_of_str w)
           (fst (pg_fetch_time_series (last_segment m) f t pg w)) []"
  by (simp add: target_datapoints_def case_prod_beta prefix_postgres)

lemma target_datapoints_elastic:
  "prefix ''elastic.'' m \<Longrightarrow>
     fst (target_datapoints es f t tss m pg w)
       = Inr (es_datapoints (fst (es_fetch_time_series ''metrics-*'' (last_segment m) f t es w)))"
  by (simp add: target_datapoints_def case_prod_beta prefix_elastic)

lemma target_datapoints_unmatched:
  "unmatched m \<Longrightarrow> target_datapoints es f t tss m pg w = (Inr [], pg, w)"
  by (simp add: target_datapoints_def unmatched_def)

lemma api_datapoints_times:
  "api_datapoints v jitter tss acc = Inr dps \<Longrightarrow> map snd dps = map snd acc @ tss"
  by (induction tss arbitrary: acc) (auto split: sum.splits)

lemma fits_float_small: "\<bar>j\<bar> \<le> 100 \<Longrightarrow> fits_float j"
  by (simp add: fits_float_def)

lemma py_add_number:
  "is_number v \<Longrightarrow> (\<And>j. x = IntNum j \<Longrightarrow> fits_float j) \<Longrightarrow> \<exists>y. py_add v x = Inr y"
  by (cases v; cases x) (simp_all add: is_number_def)

lemma weather_jitter_fits: "weather_jitter ts = IntNum j \<Longrightarrow> fits_float j"
  by (simp add: weather_jitter_def)

lemma crypto_jitter_fits: "crypto_jitter ts = IntNum j \<Longrightarrow> fits_float j"
proof -
  assume "crypto_jitter ts = IntNum j"
  then have "j = py_hash ts mod 100 - 50" by (simp add: crypto_jitter_def)
  moreover have "0 \<le> py_hash ts mod 100" and "py_hash ts mod 100 < 100" by simp_all
  ultimately have "\<bar>j\<bar> \<le> 100" by linarith
  then show ?thesis by (rule fits_float_small)
qed

lemma github_jitter_fits: "github_jitter ts = IntNum j \<Longrightarrow> fits_float j"
proof -
  assume "github_jitter ts = IntNum j"
  then have "j = py_hash ts mod 20 - 10" by (simp add: github_jitter_def)
  moreover have "0 \<le> py_hash ts mod 20" and "py_hash ts mod 20 < 20" by simp_all
  ultimately have "\<bar>j\<bar> \<le> 100" by linarith
  then show ?thesis by (rule fits_float_small)
qed

lemma api_datapoints_number:
  assumes "is_number v" and "\<And>ts j. jitter ts = IntNum j \<Longrightarrow> fits_float j"
  shows "\<exists>dps. api_datapoints v jitter tss acc = Inr dps"
proof (induction tss arbitrary: acc)
  case Nil
  then show ?case by simp
next
  case (Cons ts tss)
  from py_add_number [OF assms(1), of "jitter ts"] assms(2) [of ts]
  obtain y where "py_add v (jitter ts) = Inr y" by blast
  with Cons.IH show ?case by simp
qed

lemma api_series_times:
  "api_series data name jitter tss = Inr dps \<Longrightarrow>
     (map_of data name = None \<longrightarrow> dps = []) \<and> (map_of data name \<noteq> None \<longrightarrow> map snd dps = tss)"
  by (auto simp: api_series_def dest: api_datapoints_times split: option.splits)

lemma api_series_no_timestamps: "api_series data name jitter [] = Inr []"
  by (simp add: api_series_def split: option.splits)

lemma api_series_absent: "map_of data name = None \<Longrightarrow> api_series data name jitter tss = Inr []"
  by (simp add: api_series_def)

lemma api_series_number:
  assumes "list_all (\<lambda>kv. is_number (snd kv)) data"
    and "\<And>ts j. jitter ts = IntNum j \<Longrightarrow> fits_float j"
  shows "\<exists>dps. api_series data name jitter tss = Inr dps"
proof (cases "map_of data name")
  case None
  then show ?thesis by (simp add: api_series_def)
next
  case (Some v)
  with map_of_SomeD [OF Some] assms(1) have "is_number v"
    by (fastforce simp: list_all_iff)
  then have "\<exists>dps. api_datapoints v jitter tss [] = Inr dps"
    using assms(2) by (rule api_datapoints_number)
  with Some show ?thesis
    by (simp add: api_series_def)
qed

section \<open>Query gateway: the handler\<close>

lemma fst_triple: "fst x = a \<Longrightarrow> \<exists>b c. x = (a, b, c)"
  by (cases x) auto

lemma query_range_Inr:
  "query_range req w = Inr (f, t, tss) \<longleftrightarrow>
     fromisoformat (replace_Z (range_from req)) = Inr f
     \<and> fromisoformat (replace_Z (range_to req)) = Inr t
     \<and> gen_timestamps (local_zone w) f t [] = Inr tss"
  by (auto simp: query_range_def split: sum.splits)

lemma query_ranged:
  "query_range req w = Inr (f, t, tss) \<Longrightarrow>
     query es req pg w = query_targets es f t tss (targets req) [] pg w"
  by (simp add: query_def)

lemma query_Inr:
  assumes "fst (query es req pg w) = Inr res"
  shows "\<exists>f t tss pg' w'.
           query_range req w = Inr (f, t, tss)
         \<and> query_targets es f t tss (targets req) [] pg w = (Inr res, pg', w')"
proof (cases "query_range req w")
  case (Inl e)
  with assms show ?thesis by (simp add: query_def)
next
  case (Inr r)
  obtain f t tss where r: "r = (f, t, tss)" by (cases r) auto
  with Inr assms have "fst (query_targets es f t tss (targets req) [] pg w) = Inr res"
    by (simp add: query_def)
  from fst_triple [OF this] Inr r show ?thesis by blast
qed

lemma query_parsed:
  "fromisoformat (replace_Z (range_from req)) = Inr f \<Longrightarrow>
   fromisoformat (replace_Z (range_to req)) = Inr t \<Longrightarrow>
   gen_timestamps (local_zone w) f t [] = Inr tss \<Longrightarrow>
   query es req pg w = query_targets es f t tss (targets req) [] pg w"
  by (rule query_ranged) (simp add: query_range_Inr)

lemma rowless_step:
  assumes "rowless es f t tss ms pg w i"
  shows "fst (target_datapoints es f t tss (ms ! i)
            (fst (target_states es f t tss ms pg w ! i))
            (snd (target_states es f t tss ms pg w ! i))) = Inr []"
  using assms
  by (auto simp: rowless_def Let_def target_datapoints_unmatched target_datapoints_postgres
        target_datapoints_elastic es_datapoints_def)

lemma series_eq: "target s = m \<Longrightarrow> datapoints s = d \<Longrightarrow> s = \<lparr>target = m, datapoints = d\<rparr>"
  by (cases s) simp

lemma query_target_echo:
  assumes "fst (query es req pg w) = Inr res"
  shows "length res = length (targets req)" and "map target res = targets req"
proof -
  from query_Inr [OF assms] obtain f t tss pg' w' where
    loop: "query_targets es f t tss (targets req) [] pg w = (Inr res, pg', w')" by blast
  from query_targets_shape [OF loop] show "length res = length (targets req)"
    and "map target res = targets req" by simp_all
qed

lemma query_entry:
  assumes "fst (query es req pg w) = Inr res" and "i < length (targets req)"
  shows "step_result es req pg w i = Inr (datapoints (res ! i))"
    and "target (res ! i) = targets req ! i"
proof -
  from query_Inr [OF assms(1)] obtain f t tss pg' w' where
    rng: "query_range req w = Inr (f, t, tss)"
    and loop: "query_targets es f t tss (targets req) [] pg w = (Inr res, pg', w')" by blast
  from query_targets_entries [OF loop assms(2)] rng
  show "step_result es req pg w i = Inr (datapoints (res ! i))"
    by (simp add: step_result_def)
  from query_target_echo [OF assms(1)] assms(2) show "target (res ! i) = targets req ! i"
    by (metis nth_map)
qed

lemma rowless_in_step: "rowless_in es req pg w i \<Longrightarrow> step_result es req pg w i = Inr []"
  by (auto simp: rowless_in_def step_result_def rowless_step split: sum.splits)

lemma query_answers:
  assumes "query_range req w = Inr r"
    and "\<forall>i<length (targets req). \<exists>dps. step_result es req pg w i = Inr dps"
  shows "\<exists>res. fst (query es req pg w) = Inr res"
proof -
  obtain f t tss where r: "r = (f, t, tss)" by (cases r) auto
  with assms(1) have rng: "query_range req w = Inr (f, t, tss)" by simp
  from assms(2) rng have "\<forall>i<length (targets req). \<exists>dps.
      fst (target_datapoints es f t tss (targets req ! i)
             (fst (target_states es f t tss (targets req) pg w ! i))
             (snd (target_states es f t tss (targets req) pg w ! i))) = Inr dps"
    by (simp add: step_result_def)
  from query_targets_succeeds [OF this, of "[]"] query_ranged [OF rng, of es pg]
  show ?thesis by auto
qed

text \<open>
  C3 (as amended). A target with none of the five known prefixes, and a \<open>postgres.\<close> or
  \<open>elastic.\<close> target for which the connector returns no rows, takes a step of the loop
  that does not raise and yields the empty list; in every response the handler returns,
  its entry is the target with \<open>datapoints = []\<close>; and the request succeeds whenever its
  range is processed (both bounds parse, the comparison and the five-minute steps do not
  raise) and the step of every other target does not raise.
\<close>

theorem empty_series_for_unmatched_and_rowless:
  "(unmatched m \<longrightarrow> target_datapoints es f t tss m pg w = (Inr [], pg, w))
   \<and> (prefix ''postgres.'' m \<and> fst (pg_fetch_time_series (last_segment m) f t pg w) = []
        \<longrightarrow> fst (target_datapoints es f t tss m pg w) = Inr [])
   \<and> (prefix ''elastic.'' m
        \<and> fst (es_fetch_time_series ''metrics-*'' (last_segment m) f t es w) = []
        \<longrightarrow> fst (target_datapoints es f t tss m pg w) = Inr [])
   \<and> (i < length (targets req) \<and> rowless_in es req pg w i
        \<longrightarrow> step_result es req pg w i = Inr [])
   \<and> (fst (query es req pg w) = Inr res \<and> i < length (targets req) \<and> rowless_in es req pg w i
        \<longrightarrow> res ! i = empty_series (targets req ! i))
   \<and> (query_range req w = Inr r
        \<and> (\<forall>j<length (targets req).
              rowless_in es req pg w j \<or> (\<exists>dps. step_result es req pg w j = Inr dps))
        \<longrightarrow> (\<exists>res'. fst (query es req pg w) = Inr res'))"
proof (intro conjI impI)
  assume "unmatched m"
  then show "target_datapoints es f t tss m pg w = (Inr [], pg, w)"
    by (rule target_datapoints_unmatched)
next
  assume "prefix ''postgres.'' m \<and> fst (pg_fetch_time_series (last_segment m) f t pg w) = []"
  then show "fst (target_datapoints es f t tss m pg w) = Inr []"
    by (simp add: target_datapoints_postgres)
next
  assume "prefix ''elastic.'' m
        \<and> fst (es_fetch_time_series ''metrics-*'' (last_segment m) f t es w) = []"
  then show "fst (target_datapoints es f t tss m pg w) = Inr []"
    by (simp add: target_datapoints_elastic es_datapoints_def)
next
  assume "i < length (targets req) \<and> rowless_in es req pg w i"
  then show "step_result es req pg w i = Inr []"
    by (simp add: rowless_in_step)
next
  assume a: "fst (query es req pg w) = Inr res \<and> i < length (targets req) \<and> rowless_in es req pg w i"
  then have ok: "fst (query es req pg w) = Inr res" and i: "i < length (targets req)"
    and r: "rowless_in es req pg w i" by simp_all
  from query_entry [OF ok i] rowless_in_step [OF r]
  have "datapoints (res ! i) = []" and "target (res ! i) = targets req ! i" by simp_all
  then show "res ! i = empty_series (targets req ! i)"
    unfolding empty_series_def by (rule series_eq [rotated])
next
  assume a: "query_range req w = Inr r
        \<and> (\<forall>j<length (targets req).
              rowless_in es req pg w j \<or> (\<exists>dps. step_result es req pg w j = Inr dps))"
  then have rng: "query_range req w = Inr r" by simp
  from a rowless_in_step have "\<forall>j<length (targets req). \<exists>dps. step_result es req pg w j = Inr dps"
    by blast
  with rng show "\<exists>res'. fst (query es req pg w) = Inr res'"
    by (rule query_answers)
qed

lemma parse_example_from: "fromisoformat (replace_Z ''2024-01-01T00:00:00Z'') = Inr example_from"
  by code_simp

lemma parse_example_to: "fromisoformat (replace_Z ''2024-01-01T00:10:00Z'') = Inr example_to"
  by code_simp

lemma MAX_WALL_eq: "MAX_WALL = 253402300799999999"
  by (simp add: MAX_WALL_def days_from_civil_def us_per_day_def Let_def)

lemma MIN_WALL_num: "MIN_WALL = - 62135596800000000"
  by (simp add: MIN_WALL_eq us_per_day_def)

lemma gen_example:
  "gen_timestamps lz example_from example_to [] = Inr example_timestamps"
  by (simp add: example_timestamps_def gen_timestamps.simps example_from_def example_to_def
        dt_le_def dt_add_def five_minutes_def us_per_second_def MAX_WALL_eq MIN_WALL_num
        timestamp_ms_def timestamp_us_def trunc_div_def)

lemma query_range_example:
  "query_range (ten_minutes ms) w = Inr (example_from, example_to, example_timestamps)"
  by (simp add: query_range_Inr ten_minutes_def parse_example_from parse_example_to gen_example)

lemma parse_last_second: "fromisoformat (replace_Z ''9999-12-31T23:59:59Z'') = Inr last_second"
  by code_simp

lemma gen_last_second: "gen_timestamps lz last_second last_second [] = Inl OverflowError"
  by (simp add: gen_timestamps.simps last_second_def dt_le_def dt_add_def five_minutes_def
        us_per_second_def MAX_WALL_eq MIN_WALL_num timestamp_ms_def timestamp_us_def)

lemma rowless_targets_rowless:
  "rowless_in disconnected_es (ten_minutes rowless_targets) PostgreSQLCollector_init
     (answering price_response) 0
   \<and> rowless_in disconnected_es (ten_minutes rowless_targets) PostgreSQLCollector_init
     (answering price_response) 1
   \<and> rowless_in disconnected_es (ten_minutes rowless_targets) PostgreSQLCollector_init
     (answering price_response) 2"
  by code_simp

lemma rowless_targets_last_step:
  "step_result disconnected_es (ten_minutes rowless_targets) PostgreSQLCollector_init
     (answering price_response) 3 = Inr (datapoints (bitcoin_series ! 0))"
  by code_simp

lemma query_rowless_example:
  "fst (query disconnected_es (ten_minutes rowless_targets) PostgreSQLCollector_init
          (answering price_response))
     = Inr [empty_series ''unknown.thing'', empty_series ''postgres.cpu_usage'',
            empty_series ''elastic.total_logs'', bitcoin_series ! 0]"
  by code_simp

theorem empty_series_for_unmatched_and_rowless_witness:
  "unmatched ''unknown.thing''
   \<and> target_datapoints disconnected_es example_from example_to example_timestamps ''unknown.thing''
        PostgreSQLCollector_init (answering price_response)
       = (Inr [], PostgreSQLCollector_init, answering price_response)
   \<and> length (targets (ten_minutes rowless_targets)) = 4
   \<and> rowless_in disconnected_es (ten_minutes rowless_targets) PostgreSQLCollector_init
        (answering price_response) 1
   \<and> step_result disconnected_es (ten_minutes rowless_targets) PostgreSQLCollector_init
        (answering price_response) 1 = Inr []
   \<and> fst (query disconnected_es (ten_minutes rowless_targets) PostgreSQLCollector_init
            (answering price_response))
       = Inr [empty_series ''unknown.thing'', empty_series ''postgres.cpu_usage'',
              empty_series ''elastic.total_logs'', bitcoin_series ! 0]
   \<and> [empty_series ''unknown.thing'', empty_series ''postgres.cpu_usage'',
        empty_series ''elastic.total_logs'', bitcoin_series ! 0] ! 1
       = empty_series (targets (ten_minutes rowless_targets) ! 1)
   \<and> query_range (ten_minutes rowless_targets) (answering price_response)
       = Inr (example_from, example_to, example_timestamps)
   \<and> (\<exists>res'. fst (query disconnected_es (ten_minutes rowless_targets) PostgreSQLCollector_init
                     (answering price_response)) = Inr res')"
proof -
  let ?req = "ten_minutes rowless_targets"
  let ?w = "answering price_response"
  let ?res = "[empty_series ''unknown.thing'', empty_series ''postgres.cpu_usage'',
               empty_series ''elastic.total_logs'', bitcoin_series ! 0]"
  note inst = empty_series_for_unmatched_and_rowless [where m = "''unknown.thing''"
      and es = disconnected_es and f = example_from and t = example_to and tss = example_timestamps
      and pg = PostgreSQLCollector_init and w = "?w" and i = 1 and req = "?req" and res = "?res"
      and r = "(example_from, example_to, example_timestamps)"]
  have u: "unmatched ''unknown.thing''" by code_simp
  have len: "length (targets ?req) = 4" by (simp add: ten_minutes_def rowless_targets_def)
  have r1: "rowless_in disconnected_es ?req PostgreSQLCollector_init ?w 1"
    using rowless_targets_rowless by simp
  have steps: "\<forall>j<length (targets ?req).
      rowless_in disconnected_es ?req PostgreSQLCollector_init ?w j
      \<or> (\<exists>dps. step_result disconnected_es ?req PostgreSQLCollector_init ?w j = Inr dps)"
  proof (intro allI impI)
    fix j assume "j < length (targets ?req)"
    with len have "j = 0 \<or> j = 1 \<or> j = 2 \<or> j = 3" by auto
    with rowless_targets_rowless rowless_targets_last_step
    show "rowless_in disconnected_es ?req PostgreSQLCollector_init ?w j
      \<or> (\<exists>dps. step_result disconnected_es ?req PostgreSQLCollector_init ?w j = Inr dps)"
      by auto
  qed
  from inst u have c1: "target_datapoints disconnected_es example_from example_to example_timestamps
      ''unknown.thing'' PostgreSQLCollector_init ?w = (Inr [], PostgreSQLCollector_init, ?w)"
    by blast
  from inst len r1 have c4: "step_result disconnected_es ?req PostgreSQLCollector_init ?w 1 = Inr []"
    by simp
  from inst len r1 query_rowless_example have c5: "?res ! 1 = empty_series (targets ?req ! 1)"
    by simp
  from inst query_range_example [of rowless_targets "?w"] steps
  have c6: "\<exists>res'. fst (query disconnected_es ?req PostgreSQLCollector_init ?w) = Inr res'"
    by blast
  from u c1 len r1 c4 query_rowless_example c5 query_range_example [of rowless_targets "?w"] c6
  show ?thesis by (intro conjI)
qed

text \<open>
  C3 as stated fails: the request for the last second of the year 9999 has the single
  target \<open>unknown.thing\<close>, which matches no connector family, and the handler raises
  \<open>OverflowError\<close> when it adds five minutes to the first timestamp, before it looks at
  the target: the request does not succeed.
\<close>

theorem unknown_target_counterexample:
  "unmatched ''unknown.thing''
   \<and> targets end_of_time_unknown = [''unknown.thing'']
   \<and> fromisoformat (replace_Z (range_from end_of_time_unknown)) = Inr last_second
   \<and> fromisoformat (replace_Z (range_to end_of_time_unknown)) = Inr last_second
   \<and> fst (query disconnected_es end_of_time_unknown PostgreSQLCollector_init silent_world)
       = Inl OverflowError"
proof -
  have "unmatched ''unknown.thing''" by code_simp
  then show ?thesis
    by (simp add: query_def query_range_def end_of_time_unknown_def parse_last_second
          gen_last_second)
qed

section \<open>Query gateway: a range that runs backwards\<close>

lemma api_families:
  "prefix ''api.'' m \<Longrightarrow>
     prefix ''api.weather.'' m \<or> prefix ''api.crypto.'' m \<or> prefix ''api.github.'' m \<or> unmatched m"
  using prefix_api [of m] by (auto simp: unmatched_def)

lemma target_datapoints_api_no_timestamps:
  assumes "prefix ''api.'' m"
  shows "fst (target_datapoints es f t [] m pg w) = Inr []"
  using api_families [OF assms]
  by (auto simp: target_datapoints_weather target_datapoints_crypto target_datapoints_github
        target_datapoints_unmatched api_series_no_timestamps)

lemma pg_fetch_time_series_later:
  assumes "dt_le f t = Inr False"
  shows "fst (pg_fetch_time_series name f t pg w) = []"
  by (simp add: pg_fetch_time_series_def case_prod_beta Let_def select_time_series_later [OF assms]
        split: sum.splits option.splits)

lemma target_datapoints_later:
  assumes "dt_le f t = Inr False"
  shows "\<exists>dps. fst (target_datapoints es f t [] m pg w) = Inr dps"
proof -
  consider "prefix ''api.weather.'' m" | "prefix ''api.crypto.'' m" | "prefix ''api.github.'' m"
    | "prefix ''postgres.'' m" | "prefix ''elastic.'' m" | "unmatched m"
    by (auto simp: unmatched_def)
  then show ?thesis
  proof cases
    case 1
    then show ?thesis by (simp add: target_datapoints_weather api_series_no_timestamps)
  next
    case 2
    then show ?thesis by (simp add: target_datapoints_crypto api_series_no_timestamps)
  next
    case 3
    then show ?thesis by (simp add: target_datapoints_github api_series_no_timestamps)
  next
    case 4
    then show ?thesis
      by (simp add: target_datapoints_postgres pg_fetch_time_series_later [OF assms])
  next
    case 5
    then show ?thesis by (simp add: target_datapoints_elastic)
  next
    case 6
    then show ?thesis by (simp add: target_datapoints_unmatched)
  qed
qed

text \<open>
  C10 (as amended). When both ends of the range parse, both carry a UTC offset or neither
  does, and \<open>from\<close> is strictly later than \<open>to\<close>, no timestamp is generated, the
  request is answered (the handler does not raise), the response has one entry per
  target, in the order of the targets, and every \<open>api.\<close> target has an empty list of
  datapoints.
\<close>

theorem reversed_range_gives_empty_api_series:
  assumes "fromisoformat (replace_Z (range_from req)) = Inr f"
    and "fromisoformat (replace_Z (range_to req)) = Inr t"
    and "(utcoffset f = None) = (utcoffset t = None)"
    and "order_key t < order_key f"
  shows "gen_timestamps (local_zone w) f t [] = Inr []
     \<and> (\<exists>res. fst (query es req pg w) = Inr res
          \<and> length res = length (targets req)
          \<and> map target res = targets req
          \<and> (\<forall>i<length (targets req). prefix ''api.'' (targets req ! i) \<longrightarrow> datapoints (res ! i) = []))"
proof -
  let ?ms = "targets req"
  have later: "dt_le f t = Inr False"
    using dt_le_order_key [OF assms(3)] assms(4) by simp
  have tss: "gen_timestamps (local_zone w) f t [] = Inr []"
    using later by (rule gen_timestamps_later)
  have q: "query es req pg w = query_targets es f t [] ?ms [] pg w"
    using assms(1,2) tss by (rule query_parsed)
  have "\<forall>i<length ?ms. \<exists>dps. fst (target_datapoints es f t [] (?ms ! i)
            (fst (target_states es f t [] ?ms pg w ! i))
            (snd (target_states es f t [] ?ms pg w ! i))) = Inr dps"
    using target_datapoints_later [OF later] by blast
  from query_targets_succeeds [OF this, of "[]"] obtain res pg' w' where
    loop: "query_targets es f t [] ?ms [] pg w = (Inr res, pg', w')" by blast
  from query_targets_shape [OF loop] have len: "length res = length ?ms"
    and tg: "map target res = ?ms" by simp_all
  have "datapoints (res ! i) = []" if i: "i < length ?ms" and a: "prefix ''api.'' (?ms ! i)" for i
    using query_targets_entries [OF loop i] target_datapoints_api_no_timestamps [OF a] by simp
  with q loop len tg tss show ?thesis by simp
qed

lemma query_reversed_example:
  "fst (query disconnected_es (reversed_range mixed_targets) PostgreSQLCollector_init
          (answering price_response))
     = Inr (map empty_series mixed_targets)"
  by code_simp

theorem reversed_range_gives_empty_api_series_witness:
  "fromisoformat (replace_Z (range_from (reversed_range mixed_targets))) = Inr example_to
   \<and> fromisoformat (replace_Z (range_to (reversed_range mixed_targets))) = Inr example_from
   \<and> (utcoffset example_to = None) = (utcoffset example_from = None)
   \<and> order_key example_from < order_key example_to
   \<and> gen_timestamps (local_zone (answering price_response)) example_to example_from [] = Inr []
   \<and> (\<exists>res. fst (query disconnected_es (reversed_range mixed_targets) PostgreSQLCollector_init
                    (answering price_response)) = Inr res
          \<and> length res = 5
          \<and> map target res = mixed_targets
          \<and> datapoints (res ! 0) = [] \<and> datapoints (res ! 1) = [] \<and> datapoints (res ! 4) = [])"
proof -
  have h1: "fromisoformat (replace_Z (range_from (reversed_range mixed_targets))) = Inr example_to"
    by (simp add: reversed_range_def parse_example_to)
  have h2: "fromisoformat (replace_Z (range_to (reversed_range mixed_targets))) = Inr example_from"
    by (simp add: reversed_range_def parse_example_from)
  have h3: "(utcoffset example_to = None) = (utcoffset example_from = None)"
    by (simp add: example_from_def example_to_def)
  have h4: "order_key example_from < order_key example_to"
    by (simp add: order_key_def example_from_def example_to_def)
  from reversed_range_gives_empty_api_series [OF h1 h2 h3 h4, of "answering price_response"
      disconnected_es PostgreSQLCollector_init]
  obtain res where
    r: "fst (query disconnected_es (reversed_range mixed_targets) PostgreSQLCollector_init
              (answering price_response)) = Inr res"
       "length res = length (targets (reversed_range mixed_targets))"
       "map target res = targets (reversed_range mixed_targets)"
       "\<forall>i<length (targets (reversed_range mixed_targets)).
          prefix ''api.'' (targets (reversed_range mixed_targets) ! i) \<longrightarrow> datapoints (res ! i) = []"
    and g: "gen_timestamps (local_zone (answering price_response)) example_to example_from [] = Inr []"
    by blast
  from r(4) have "datapoints (res ! 0) = [] \<and> datapoints (res ! 1) = [] \<and> datapoints (res ! 4) = []"
    by (simp add: reversed_range_def mixed_targets_def)
  with r(1-3) g h1 h2 h3 h4 show ?thesis
    by (simp add: reversed_range_def mixed_targets_def)
qed

text \<open>
  C10 as stated fails: with \<open>from\<close> = 2024-01-02T00:00:00Z and \<open>to\<close> =
  2024-01-01T00:00:00, a day earlier and without offset, both bounds parse and the
  comparison \<open>current <= time_to\<close> raises \<open>TypeError\<close>: the request is rejected.
\<close>

theorem mixed_offsets_counterexample:
  "fromisoformat (replace_Z (range_from reversed_mixed))
     = Inr \<lparr>wall_us = 1704153600000000, utcoffset = Some 0\<rparr>
   \<and> fromisoformat (replace_Z (range_to reversed_mixed))
     = Inr \<lparr>wall_us = 1704067200000000, utcoffset = None\<rparr>
   \<and> fst (query disconnected_es reversed_mixed PostgreSQLCollector_init (answering price_response))
     = Inl TypeError"
  by code_simp

section \<open>Query gateway: metrics outside the defaults\<close>

lemma weather_fields_keys: "weather_fields r = Inr d \<Longrightarrow> map fst d = weather_metrics"
  unfolding weather_fields_def bind_result_Inr
  by (auto simp: dict_set_def weather_metrics_def)

lemma github_fields_keys: "github_fields r = Inr d \<Longrightarrow> map fst d = github_metrics"
  unfolding github_fields_def bind_result_Inr
  by (auto simp: dict_set_def github_metrics_def)

lemma crypto_fields_keys: "crypto_fields coins r = Inr d \<Longrightarrow> fst ` set d \<subseteq> set coins"
  unfolding crypto_fields_def bind_result_Inr
  by (auto dest!: crypto_comprehension_keys)

lemma fetch_weather_data_keys:
  "fst ` set (fst (fetch_weather_data lat lon w)) \<subseteq> set weather_metrics"
proof (cases "bind_result (fst (http_send (get_request API_SOURCES_weather (weather_params lat lon) 10) w))
                weather_fields")
  case (Inl e)
  then show ?thesis by (simp add: fetch_weather_data_unfold Let_def)
next
  case (Inr d)
  then obtain r where "weather_fields r = Inr d" unfolding bind_result_Inr by blast
  from weather_fields_keys [OF this] have "fst ` set d = set weather_metrics"
    by (metis set_map)
  with Inr show ?thesis by (simp add: fetch_weather_data_unfold Let_def)
qed

lemma fetch_github_stats_keys:
  "fst ` set (fst (fetch_github_stats repo w)) \<subseteq> set github_metrics"
proof (cases "bind_result (fst (http_send (get_request (API_SOURCES_github @ ''/'' @ repo) [] 10) w))
                github_fields")
  case (Inl e)
  then show ?thesis by (simp add: fetch_github_stats_unfold Let_def)
next
  case (Inr d)
  then obtain r where "github_fields r = Inr d" unfolding bind_result_Inr by blast
  from github_fields_keys [OF this] have "fst ` set d = set github_metrics"
    by (metis set_map)
  with Inr show ?thesis by (simp add: fetch_github_stats_unfold Let_def)
qed

lemma fetch_crypto_prices_keys:
  "fst ` set (fst (fetch_crypto_prices coins w)) \<subseteq> set coins"
proof (cases "bind_result (fst (http_send (get_request API_SOURCES_crypto (crypto_params coins) 10) w))
                (crypto_fields coins)")
  case (Inl e)
  then show ?thesis by (simp add: fetch_crypto_prices_unfold Let_def)
next
  case (Inr d)
  then obtain r where "crypto_fields coins r = Inr d" unfolding bind_result_Inr by blast
  from crypto_fields_keys [OF this] Inr show ?thesis
    by (simp add: fetch_crypto_prices_unfold Let_def)
qed

lemma map_of_outside: "fst ` set d \<subseteq> K \<Longrightarrow> k \<notin> K \<Longrightarrow> map_of d k = None"
  by (auto simp: map_of_eq_None_iff)

lemma target_datapoints_outside:
  assumes "outside_defaults m"
  shows "fst (target_datapoints es f t tss m pg w) = Inr []"
  using assms
    map_of_outside [OF fetch_weather_data_keys, of "last_segment m" default_lat default_lon w]
    map_of_outside [OF fetch_crypto_prices_keys, of "last_segment m" default_coins w]
    map_of_outside [OF fetch_github_stats_keys, of "last_segment m" default_repo w]
  by (auto simp: outside_defaults_def target_datapoints_weather target_datapoints_crypto
        target_datapoints_github api_series_absent)

text \<open>
  C9 (as amended). A target of an API family whose last dot-segment is outside the
  default keys of that family (\<open>bitcoin\<close>, \<open>ethereum\<close>; \<open>temperature\<close>,
  \<open>wind_speed\<close>, \<open>humidity\<close>; \<open>stars\<close>, \<open>forks\<close>, \<open>open_issues\<close>, \<open>watchers\<close>)
  gets the empty list of datapoints, whatever the range, the upstream answer and the
  state: in its step of the loop, and in its entry of the response.
\<close>

theorem metrics_outside_defaults_are_empty:
  "(outside_defaults m \<longrightarrow> fst (target_datapoints es f t tss m pg w) = Inr [])
   \<and> (fst (query es req pg0 w0) = Inr res \<longrightarrow>
        (\<forall>i<length (targets req). outside_defaults (targets req ! i) \<longrightarrow>
           res ! i = empty_series (targets req ! i)))"
proof -
  have "res ! i = empty_series (targets req ! i)"
    if ok: "fst (query es req pg0 w0) = Inr res" and i: "i < length (targets req)"
      and o: "outside_defaults (targets req ! i)" for i
  proof -
    from query_Inr [OF ok] obtain f' t' tss' pg' w' where
      loop: "query_targets es f' t' tss' (targets req) [] pg0 w0 = (Inr res, pg', w')"
      by blast
    from query_targets_entries [OF loop i] target_datapoints_outside [OF o]
    have "datapoints (res ! i) = []" by simp
    moreover from query_targets_shape [OF loop] i have "target (res ! i) = targets req ! i"
      by (metis add_0 drop0 list.size(3) nth_map)
    ultimately show ?thesis unfolding empty_series_def by (rule series_eq [rotated])
  qed
  then show ?thesis by (simp add: target_datapoints_outside)
qed

lemma outside_dogecoin: "outside_defaults ''api.crypto.dogecoin''"
  by code_simp

lemma query_dogecoin:
  "fst (query disconnected_es (ten_minutes [''api.crypto.dogecoin'']) PostgreSQLCollector_init
          (answering price_response))
     = Inr [empty_series ''api.crypto.dogecoin'']"
  by code_simp

theorem metrics_outside_defaults_are_empty_witness:
  "outside_defaults ''api.crypto.dogecoin''
   \<and> fst (target_datapoints disconnected_es example_from example_to example_timestamps
            ''api.crypto.dogecoin'' PostgreSQLCollector_init (answering price_response)) = Inr []
   \<and> fst (query disconnected_es (ten_minutes [''api.crypto.dogecoin'']) PostgreSQLCollector_init
            (answering price_response)) = Inr [empty_series ''api.crypto.dogecoin'']
   \<and> [empty_series ''api.crypto.dogecoin''] ! 0 = empty_series ''api.crypto.dogecoin''"
  using metrics_outside_defaults_are_empty [of "''api.crypto.dogecoin''" disconnected_es example_from
      example_to example_timestamps PostgreSQLCollector_init "answering price_response"
      "ten_minutes [''api.crypto.dogecoin'']" PostgreSQLCollector_init "answering price_response"
      "[empty_series ''api.crypto.dogecoin'']"]
    outside_dogecoin query_dogecoin
  by simp

text \<open>
  C9 as stated fails: in \<open>api.crypto.x.bitcoin\<close> the part after the prefix,
  \<open>x.bitcoin\<close>, is outside the default set, and the entry still has three datapoints,
  because only the last dot-segment \<open>bitcoin\<close> is looked up.
\<close>

theorem dotted_coin_counterexample:
  "prefix ''api.crypto.'' ''api.crypto.x.bitcoin''
   \<and> drop (length ''api.crypto.'') ''api.crypto.x.bitcoin'' = ''x.bitcoin''
   \<and> ''x.bitcoin'' \<notin> set default_coins
   \<and> fst (query disconnected_es (ten_minutes [''api.crypto.x.bitcoin'']) PostgreSQLCollector_init
            (answering price_response))
       = Inr [\<lparr>target = ''api.crypto.x.bitcoin'',
               datapoints = [(41950, 1704067200000), (41950, 1704067500000), (41950, 1704067800000)]\<rparr>]"
  by code_simp

section \<open>Query gateway: the timestamps of API series\<close>

lemma target_datapoints_api:
  assumes "prefix ''api.'' m" and "fst (target_datapoints es f t tss m pg w) = Inr dps"
  shows "(upstream_value m w = None \<longrightarrow> dps = [])
       \<and> (upstream_value m w \<noteq> None \<longrightarrow> map snd dps = tss)"
proof -
  from api_families [OF assms(1)]
  consider "prefix ''api.weather.'' m" | "prefix ''api.crypto.'' m" | "prefix ''api.github.'' m"
    | "unmatched m" by blast
  then show ?thesis
  proof cases
    case 1
    with assms(2) api_series_times show ?thesis
      by (simp add: target_datapoints_weather upstream_value_def)
  next
    case 2
    with assms(2) api_series_times prefix_crypto [OF 2] show ?thesis
      by (simp add: target_datapoints_crypto upstream_value_def)
  next
    case 3
    with assms(2) api_series_times prefix_github [OF 3] show ?thesis
      by (simp add: target_datapoints_github upstream_value_def)
  next
    case 4
    with assms(2) show ?thesis
      by (simp add: target_datapoints_unmatched upstream_value_def unmatched_def)
  qed
qed

lemma three_datapoints:
  assumes "map snd dps = [a, b, c]"
  shows "\<exists>x0 x1 x2. dps = [(x0, a), (x1, b), (x2, c)]"
proof -
  from assms obtain p0 p1 p2 where dps: "dps = [p0, p1, p2]"
    by (auto simp: map_eq_Cons_conv)
  with assms have "p0 = (fst p0, a) \<and> p1 = (fst p1, b) \<and> p2 = (fst p2, c)"
    by (auto simp: prod_eq_iff)
  with dps show ?thesis by metis
qed

lemma query_bitcoin_scenario:
  assumes "upstream_value ''api.crypto.bitcoin'' w = Some v" and "is_number v"
  shows "\<exists>x0 x1 x2. fst (query es (ten_minutes [''api.crypto.bitcoin'']) pg w)
           = Inr [\<lparr>target = ''api.crypto.bitcoin'',
                   datapoints = [(x0, 1704067200000), (x1, 1704067500000), (x2, 1704067800000)]\<rparr>]"
proof -
  let ?m = "''api.crypto.bitcoin''"
  have p: "prefix ''api.crypto.'' ?m" by simp
  have q: "query es (ten_minutes [?m]) pg w
             = query_targets es example_from example_to example_timestamps [?m] [] pg w"
    using query_parsed [of "ten_minutes [?m]" example_from example_to w example_timestamps es pg]
    by (simp add: ten_minutes_def parse_example_from parse_example_to gen_example)
  from assms(1) prefix_crypto [OF p]
  have val: "map_of (fst (fetch_crypto_prices default_coins w)) (last_segment ?m) = Some v"
    by (simp add: upstream_value_def)
  have "\<exists>dps. api_datapoints v crypto_jitter example_timestamps [] = Inr dps"
    using assms(2) crypto_jitter_fits by (rule api_datapoints_number)
  then obtain dps where dps: "api_datapoints v crypto_jitter example_timestamps [] = Inr dps" by blast
  from api_datapoints_times [OF dps] have "map snd dps = example_timestamps" by simp
  from three_datapoints [OF this [unfolded example_timestamps_def]] obtain x0 x1 x2 where
    shape: "dps = [(x0, 1704067200000), (x1, 1704067500000), (x2, 1704067800000)]" by blast
  from val dps have "fst (target_datapoints es example_from example_to example_timestamps ?m pg w)
      = Inr dps"
    by (simp add: target_datapoints_crypto [OF p] api_series_def)
  then have "fst (query_targets es example_from example_to example_timestamps [?m] [] pg w)
      = Inr [\<lparr>target = ?m, datapoints = dps\<rparr>]"
    by (cases "target_datapoints es example_from example_to example_timestamps ?m pg w") simp
  with q shape show ?thesis by simp
qed

text \<open>
  C2 (as amended). In a response to a request whose range parses, the datapoints of an
  \<open>api.\<close> target carry timestamps of the generated sequence, which starts at \<open>from\<close>,
  advances in steps of five minutes and stops at the last step not later than \<open>to\<close>;
  they carry all of them, in order, when the connector returns a value for the metric;
  and they are strictly increasing when \<open>from\<close> carries a UTC offset. The range from
  2024-01-01T00:00:00Z to 2024-01-01T00:10:00Z gives \<open>api.crypto.bitcoin\<close> exactly three
  datapoints, at minutes 0, 5 and 10, whenever the connector returns a price.
\<close>

theorem api_datapoints_follow_the_range:
  assumes "fromisoformat (replace_Z (range_from req)) = Inr f"
    and "fromisoformat (replace_Z (range_to req)) = Inr t"
    and "fst (query es req pg w) = Inr res"
    and "i < length (targets req)"
    and "prefix ''api.'' (targets req ! i)"
  shows "(\<exists>n tss. (\<forall>k<n. dt_le (step_time f k) t = Inr True)
            \<and> dt_le (step_time f n) t = Inr False
            \<and> range_timestamps (local_zone w) f n tss
            \<and> set (map snd (datapoints (res ! i))) \<subseteq> set tss
            \<and> (upstream_value (targets req ! i)
                  (snd (target_states es f t tss (targets req) pg w ! i)) \<noteq> None
                \<longrightarrow> map snd (datapoints (res ! i)) = tss))
     \<and> (utcoffset f \<noteq> None \<longrightarrow> sorted_wrt (<) (map snd (datapoints (res ! i))))
     \<and> (upstream_value ''api.crypto.bitcoin'' w' = Some v \<and> is_number v \<longrightarrow>
          (\<exists>x0 x1 x2. fst (query es' (ten_minutes [''api.crypto.bitcoin'']) pg' w')
             = Inr [\<lparr>target = ''api.crypto.bitcoin'',
                     datapoints = [(x0, 1704067200000), (x1, 1704067500000), (x2, 1704067800000)]\<rparr>]))"
proof -
  let ?ms = "targets req"
  from query_Inr [OF assms(3)] assms(1,2) obtain tss pg1 w1 where
    tss: "gen_timestamps (local_zone w) f t [] = Inr tss"
    and loop: "query_targets es f t tss ?ms [] pg w = (Inr res, pg1, w1)"
    by (auto simp: query_range_Inr)
  from gen_timestamps_Inr [OF tss] obtain n where
    n: "range_timestamps (local_zone w) f n tss"
    and le: "\<forall>k<n. dt_le (step_time f k) t = Inr True"
    and stop: "dt_le (step_time f n) t = Inr False"
    by auto
  let ?st = "target_states es f t tss ?ms pg w ! i"
  from query_targets_entries [OF loop assms(4)]
  have step: "fst (target_datapoints es f t tss (?ms ! i) (fst ?st) (snd ?st))
                = Inr (datapoints (res ! i))" by simp
  from target_datapoints_api [OF assms(5) step]
  have emp: "upstream_value (?ms ! i) (snd ?st) = None \<longrightarrow> datapoints (res ! i) = []"
    and full: "upstream_value (?ms ! i) (snd ?st) \<noteq> None \<longrightarrow> map snd (datapoints (res ! i)) = tss"
    by simp_all
  from emp full have sub: "set (map snd (datapoints (res ! i))) \<subseteq> set tss"
    by (cases "upstream_value (?ms ! i) (snd ?st)") auto
  have incr: "sorted_wrt (<) (map snd (datapoints (res ! i)))" if "utcoffset f \<noteq> None"
  proof -
    from that obtain off where "utcoffset f = Some off" by auto
    from range_timestamps_increasing [OF this n] have "sorted_wrt (<) tss" .
    with emp full show ?thesis
      by (cases "upstream_value (?ms ! i) (snd ?st)") auto
  qed
  have first: "\<exists>n tss. (\<forall>k<n. dt_le (step_time f k) t = Inr True)
            \<and> dt_le (step_time f n) t = Inr False
            \<and> range_timestamps (local_zone w) f n tss
            \<and> set (map snd (datapoints (res ! i))) \<subseteq> set tss
            \<and> (upstream_value (targets req ! i)
                  (snd (target_states es f t tss (targets req) pg w ! i)) \<noteq> None
                \<longrightarrow> map snd (datapoints (res ! i)) = tss)"
    using le stop n sub full by blast
  from first incr query_bitcoin_scenario [of w' v es' pg'] show ?thesis by blast
qed

lemma query_bitcoin_example:
  "fst (query disconnected_es (ten_minutes [''api.crypto.bitcoin'']) PostgreSQLCollector_init
          (answering price_response)) = Inr bitcoin_series"
  by code_simp

lemma upstream_bitcoin_example:
  "upstream_value ''api.crypto.bitcoin'' (answering price_response) = Some (JInt 42000)"
  by code_simp

theorem api_datapoints_follow_the_range_witness:
  "fromisoformat (replace_Z (range_from (ten_minutes [''api.crypto.bitcoin'']))) = Inr example_from
   \<and> fromisoformat (replace_Z (range_to (ten_minutes [''api.crypto.bitcoin'']))) = Inr example_to
   \<and> fst (query disconnected_es (ten_minutes [''api.crypto.bitcoin'']) PostgreSQLCollector_init
            (answering price_response)) = Inr bitcoin_series
   \<and> prefix ''api.'' (targets (ten_minutes [''api.crypto.bitcoin'']) ! 0)
   \<and> utcoffset example_from \<noteq> None
   \<and> upstream_value ''api.crypto.bitcoin'' (answering price_response) = Some (JInt 42000)
   \<and> is_number (JInt 42000)
   \<and> sorted_wrt (<) (map snd (datapoints (bitcoin_series ! 0)))
   \<and> map snd (datapoints (bitcoin_series ! 0)) = example_timestamps"
proof -
  have h1: "fromisoformat (replace_Z (range_from (ten_minutes [''api.crypto.bitcoin''])))
              = Inr example_from"
    by (simp add: ten_minutes_def parse_example_from)
  have h2: "fromisoformat (replace_Z (range_to (ten_minutes [''api.crypto.bitcoin''])))
              = Inr example_to"
    by (simp add: ten_minutes_def parse_example_to)
  have h4: "0 < length (targets (ten_minutes [''api.crypto.bitcoin'']))"
    by (simp add: ten_minutes_def)
  have h5: "prefix ''api.'' (targets (ten_minutes [''api.crypto.bitcoin'']) ! 0)"
    by (simp add: ten_minutes_def)
  have h6: "utcoffset example_from \<noteq> None"
    by (simp add: example_from_def)
  have h7: "is_number (JInt 42000)"
    by (simp add: is_number_def fits_float_def)
  from api_datapoints_follow_the_range [OF h1 h2 query_bitcoin_example h4 h5] h6
  have "sorted_wrt (<) (map snd (datapoints (bitcoin_series ! 0)))" by blast
  moreover have "map snd (datapoints (bitcoin_series ! 0)) = example_timestamps"
    by (simp add: bitcoin_series_def example_timestamps_def)
  ultimately show ?thesis
    using h1 h2 h5 h6 h7 query_bitcoin_example upstream_bitcoin_example by blast
qed

text \<open>
  C2 as stated fails for a range given without UTC offset: the timestamps then come from
  the host's local time, and across the start of daylight saving time the reading 03:00
  gets the timestamp of the reading 02:00, so the sequence is not increasing.
\<close>

theorem naive_range_counterexample:
  "fromisoformat (replace_Z (range_from spring_forward))
     = Inr \<lparr>wall_us = 1710036000000000, utcoffset = None\<rparr>
   \<and> fromisoformat (replace_Z (range_to spring_forward))
     = Inr \<lparr>wall_us = 1710039600000000, utcoffset = None\<rparr>
   \<and> dt_le \<lparr>wall_us = 1710036000000000, utcoffset = None\<rparr>
           \<lparr>wall_us = 1710039600000000, utcoffset = None\<rparr> = Inr True
   \<and> fst (query disconnected_es spring_forward PostgreSQLCollector_init new_york_host)
     = Inr [\<lparr>target = ''api.crypto.bitcoin'',
             datapoints = [(41950, 1710054000000), (41950, 1710054300000), (41950, 1710054600000),
                           (41950, 1710054900000), (41950, 1710055200000), (41950, 1710055500000),
                           (41950, 1710055800000), (41950, 1710056100000), (41950, 1710056400000),
                           (41950, 1710056700000), (41950, 1710057000000), (41950, 1710057300000),
                           (41950, 1710054000000)]\<rparr>]
   \<and> \<not> sorted_wrt (<) [1710054000000, 1710054300000, 1710054600000, 1710054900000,
                      1710055200000, 1710055500000, 1710055800000, 1710056100000,
                      1710056400000, 1710056700000, 1710057000000, 1710057300000,
                      1710054000000 :: int]"
  by code_simp

section \<open>Query gateway: the shape of the response\<close>

lemma numeric_sources_same_env: "numeric_sources w \<Longrightarrow> same_env w w' \<Longrightarrow> numeric_sources w'"
  by (simp add: numeric_sources_def same_env_def)

lemma bind_http_send_Inr:
  "bind_result (fst (http_send rq w)) F = Inr d \<Longrightarrow>
     \<exists>r. http_oracle w (length (http_log w)) rq = Responded r \<and> F r = Inr d"
  by (auto simp: http_send_fst bind_result_def split: http_outcome.splits)

lemma fetch_weather_data_numeric:
  assumes "numeric_sources w"
  shows "list_all (\<lambda>kv. is_number (snd kv)) (fst (fetch_weather_data default_lat default_lon w))"
proof (cases "bind_result (fst (http_send (get_request API_SOURCES_weather
                (weather_params default_lat default_lon) 10) w)) weather_fields")
  case (Inl e)
  then show ?thesis by (simp add: fetch_weather_data_unfold Let_def)
next
  case (Inr d)
  from bind_http_send_Inr [OF Inr] assms have "list_all (\<lambda>kv. is_number (snd kv)) d"
    unfolding numeric_sources_def by blast
  with Inr show ?thesis by (simp add: fetch_weather_data_unfold Let_def)
qed

lemma fetch_crypto_prices_numeric:
  assumes "numeric_sources w"
  shows "list_all (\<lambda>kv. is_number (snd kv)) (fst (fetch_crypto_prices default_coins w))"
proof (cases "bind_result (fst (http_send (get_request API_SOURCES_crypto
                (crypto_params default_coins) 10) w)) (crypto_fields default_coins)")
  case (Inl e)
  then show ?thesis by (simp add: fetch_crypto_prices_unfold Let_def)
next
  case (Inr d)
  from bind_http_send_Inr [OF Inr] assms have "list_all (\<lambda>kv. is_number (snd kv)) d"
    unfolding numeric_sources_def by blast
  with Inr show ?thesis by (simp add: fetch_crypto_prices_unfold Let_def)
qed

lemma fetch_github_stats_numeric:
  assumes "numeric_sources w"
  shows "list_all (\<lambda>kv. is_number (snd kv)) (fst (fetch_github_stats default_repo w))"
proof (cases "bind_result (fst (http_send (get_request (API_SOURCES_github @ ''/'' @ default_repo)
                [] 10) w)) github_fields")
  case (Inl e)
  then show ?thesis by (simp add: fetch_github_stats_unfold Let_def)
next
  case (Inr d)
  from bind_http_send_Inr [OF Inr] assms have "list_all (\<lambda>kv. is_number (snd kv)) d"
    unfolding numeric_sources_def by blast
  with Inr show ?thesis by (simp add: fetch_github_stats_unfold Let_def)
qed

lemma map_filter_source:
  "x \<in> set (List.map_filter F xs) \<Longrightarrow> \<exists>y\<in>set xs. F y = Some x"
  by (induction xs) (auto simp: List.map_filter_simps split: option.splits)

lemma select_time_series_source:
  assumes "r \<in> set (select_time_series name s e rows)"
  shows "\<exists>r'\<in>set rows. row_timestamp r' = Some (ts_timestamp r)
           \<and> row_metric_value r' = ts_metric_value r"
proof -
  from assms have "r \<in> set (List.map_filter
          (\<lambda>r. case (row_metric_name r, row_timestamp r) of
                  (Some n, Some t) \<Rightarrow>
                    if n = name \<and> dt_le s t = Inr True \<and> dt_le t e = Inr True
                    then Some \<lparr>ts_timestamp = t, ts_metric_value = row_metric_value r\<rparr>
                    else None
                | _ \<Rightarrow> None)
          rows)"
    by (simp add: select_time_series_def)
  from map_filter_source [OF this] obtain y where y: "y \<in> set rows"
    and fy: "(case (row_metric_name y, row_timestamp y) of
                  (Some n, Some t) \<Rightarrow>
                    if n = name \<and> dt_le s t = Inr True \<and> dt_le t e = Inr True
                    then Some \<lparr>ts_timestamp = t, ts_metric_value = row_metric_value y\<rparr>
                    else None
                | _ \<Rightarrow> None) = Some r"
    by blast
  from fy obtain n t where "row_metric_name y = Some n" and t: "row_timestamp y = Some t"
    by (cases "row_metric_name y"; cases "row_timestamp y") simp_all
  with fy have "r = \<lparr>ts_timestamp = t, ts_metric_value = row_metric_value y\<rparr>"
    by (simp split: if_splits)
  with t have "row_timestamp y = Some (ts_timestamp r) \<and> row_metric_value y = ts_metric_value r"
    by simp
  with y show ?thesis by blast
qed

lemma pg_datapoints_convertible:
  "\<forall>r\<in>set rows. (\<exists>x. py_float fos (ts_metric_value r) = Inr x)
                   \<and> (\<exists>ms. timestamp_ms lz (ts_timestamp r) = Inr ms) \<Longrightarrow>
     \<exists>dps. pg_datapoints lz fos rows acc = Inr dps"
proof (induction rows arbitrary: acc)
  case Nil
  then show ?case by simp
next
  case (Cons r rows)
  from Cons.prems obtain x ms where x: "py_float fos (ts_metric_value r) = Inr x"
    and ms: "timestamp_ms lz (ts_timestamp r) = Inr ms" by auto
  from Cons.prems have "\<forall>r\<in>set rows. (\<exists>x. py_float fos (ts_metric_value r) = Inr x)
                   \<and> (\<exists>ms. timestamp_ms lz (ts_timestamp r) = Inr ms)" by simp
  from Cons.IH [OF this] have "\<exists>dps. pg_datapoints lz fos rows (acc @ [(x, ms)]) = Inr dps" .
  with x ms show ?case by simp
qed

lemma pg_fetch_time_series_rows:
  "fst (pg_fetch_time_series name f t pg w) = []
   \<or> (\<exists>n rows. pg_table_oracle w n = Some rows
         \<and> fst (pg_fetch_time_series name f t pg w) = select_time_series name f t rows)"
proof -
  have env: "pg_table_oracle (snd (ensure_connected pg w)) = pg_table_oracle w"
    using same_env_ensure_connected [of w pg] by (simp add: same_env_def)
  show ?thesis
    by (auto simp: pg_fetch_time_series_def case_prod_beta Let_def env
          split: sum.splits option.splits)
qed

lemma target_datapoints_numeric:
  assumes "numeric_sources w"
  shows "\<exists>dps. fst (target_datapoints es f t tss m pg w) = Inr dps"
proof -
  consider "prefix ''api.weather.'' m" | "prefix ''api.crypto.'' m" | "prefix ''api.github.'' m"
    | "prefix ''postgres.'' m" | "prefix ''elastic.'' m" | "unmatched m"
    by (auto simp: unmatched_def)
  then show ?thesis
  proof cases
    case 1
    with api_series_number [OF fetch_weather_data_numeric [OF assms] weather_jitter_fits]
    show ?thesis by (simp add: target_datapoints_weather)
  next
    case 2
    with api_series_number [OF fetch_crypto_prices_numeric [OF assms] crypto_jitter_fits]
    show ?thesis by (simp add: target_datapoints_crypto)
  next
    case 3
    with api_series_number [OF fetch_github_stats_numeric [OF assms] github_jitter_fits]
    show ?thesis by (simp add: target_datapoints_github)
  next
    case 4
    let ?rows = "fst (pg_fetch_time_series (last_segment m) f t pg w)"
    have "\<forall>r\<in>set ?rows. (\<exists>x. py_float (float_of_str w) (ts_metric_value r) = Inr x)
                   \<and> (\<exists>ms. timestamp_ms (local_zone w) (ts_timestamp r) = Inr ms)"
    proof (cases "?rows = []")
      case True
      then show ?thesis by simp
    next
      case False
      with pg_fetch_time_series_rows [of "last_segment m" f t pg w] obtain n rows where
        tab: "pg_table_oracle w n = Some rows"
        and sel: "?rows = select_time_series (last_segment m) f t rows"
        by blast
      from assms tab have ok: "\<forall>r\<in>set rows.
          (\<exists>x. py_float (float_of_str w) (row_metric_value r) = Inr x)
          \<and> (\<forall>ts. row_timestamp r = Some ts \<longrightarrow> (\<exists>ms. timestamp_ms (local_zone w) ts = Inr ms))"
        unfolding numeric_sources_def list_all_iff by blast
      show ?thesis
      proof
        fix r assume "r \<in> set ?rows"
        with sel select_time_series_source [of r "last_segment m" f t rows]
        obtain r' where r': "r' \<in> set rows" and ts: "row_timestamp r' = Some (ts_timestamp r)"
          and v: "row_metric_value r' = ts_metric_value r" by auto
        from ok r' ts v show "(\<exists>x. py_float (float_of_str w) (ts_metric_value r) = Inr x)
                   \<and> (\<exists>ms. timestamp_ms (local_zone w) (ts_timestamp r) = Inr ms)"
          by (metis)
      qed
    qed
    from pg_datapoints_convertible [OF this] 4 show ?thesis
      by (simp add: target_datapoints_postgres)
  next
    case 5
    then show ?thesis by (simp add: target_datapoints_elastic)
  next
    case 6
    then show ?thesis by (simp add: target_datapoints_unmatched)
  qed
qed

lemma query_succeeds_numeric:
  assumes f: "fromisoformat (replace_Z (range_from req)) = Inr f"
    and t: "fromisoformat (replace_Z (range_to req)) = Inr t"
    and aw: "(utcoffset f = None) = (utcoffset t = None)"
    and bound: "wall_us f + int (step_count f t) * five_minutes \<le> MAX_WALL"
    and conv: "range_converts (local_zone w) f t"
    and num: "numeric_sources w"
  shows "\<exists>res. fst (query es req pg w) = Inr res"
proof -
  let ?ms = "targets req"
  from gen_timestamps_succeeds [OF aw fromisoformat_lower [OF f] bound conv, of "[]"]
  obtain tss where tss: "gen_timestamps (local_zone w) f t [] = Inr tss" by blast
  have "\<forall>i<length ?ms. \<exists>dps. fst (target_datapoints es f t tss (?ms ! i)
            (fst (target_states es f t tss ?ms pg w ! i))
            (snd (target_states es f t tss ?ms pg w ! i))) = Inr dps"
  proof (intro allI impI)
    fix i assume "i < length ?ms"
    from same_env_target_states [OF this, of w es f t tss pg] num
    have "numeric_sources (snd (target_states es f t tss ?ms pg w ! i))"
      by (rule numeric_sources_same_env [rotated])
    then show "\<exists>dps. fst (target_datapoints es f t tss (?ms ! i)
            (fst (target_states es f t tss ?ms pg w ! i))
            (snd (target_states es f t tss ?ms pg w ! i))) = Inr dps"
      by (rule target_datapoints_numeric)
  qed
  from query_targets_succeeds [OF this, of "[]"] query_parsed [OF f t tss, of es pg]
  show ?thesis by auto
qed

text \<open>
  C1 (as amended). Whenever the handler of \<open>/query\<close> returns a response, the response
  has one entry per target and the \<open>i\<close>-th entry carries the \<open>i\<close>-th target string.
  It returns a response whenever both ends of the range parse, both carry a UTC offset
  or neither does, the five-minute step after the last generated timestamp is still a
  date of the years 1 to 9999, the host converts every generated step of a range given
  without offset, and the sources hand back numbers: API values that are numbers, an
  integer among them small enough for a float, and database rows whose value converts
  to a float and whose timestamp converts to an epoch.
\<close>

theorem query_response_shape:
  "(fst (query es req pg w) = Inr res \<longrightarrow>
      length res = length (targets req)
      \<and> (\<forall>i<length (targets req). target (res ! i) = targets req ! i))
   \<and> (fromisoformat (replace_Z (range_from req)) = Inr f
       \<and> fromisoformat (replace_Z (range_to req)) = Inr t
       \<and> (utcoffset f = None) = (utcoffset t = None)
       \<and> wall_us f + int (step_count f t) * five_minutes \<le> MAX_WALL
       \<and> range_converts (local_zone w) f t
       \<and> numeric_sources w
      \<longrightarrow> (\<exists>res'. fst (query es req pg w) = Inr res'))"
proof (intro conjI impI)
  assume ok: "fst (query es req pg w) = Inr res"
  from query_target_echo [OF ok] show "length res = length (targets req)" by simp
next
  assume ok: "fst (query es req pg w) = Inr res"
  from query_target_echo [OF ok] show "\<forall>i<length (targets req). target (res ! i) = targets req ! i"
    by (metis nth_map)
next
  assume h: "fromisoformat (replace_Z (range_from req)) = Inr f
       \<and> fromisoformat (replace_Z (range_to req)) = Inr t
       \<and> (utcoffset f = None) = (utcoffset t = None)
       \<and> wall_us f + int (step_count f t) * five_minutes \<le> MAX_WALL
       \<and> range_converts (local_zone w) f t
       \<and> numeric_sources w"
  note h1 = h [THEN conjunct1]
  note h2 = h [THEN conjunct2, THEN conjunct1]
  note h3 = h [THEN conjunct2, THEN conjunct2, THEN conjunct1]
  note h4 = h [THEN conjunct2, THEN conjunct2, THEN conjunct2, THEN conjunct1]
  note h5 = h [THEN conjunct2, THEN conjunct2, THEN conjunct2, THEN conjunct2, THEN conjunct1]
  note h6 = h [THEN conjunct2, THEN conjunct2, THEN conjunct2, THEN conjunct2, THEN conjunct2]
  from h1 h2 h3 h4 h5 h6 show "\<exists>res'. fst (query es req pg w) = Inr res'"
    by (rule query_succeeds_numeric)
qed

lemma numeric_price_world: "numeric_sources (answering price_response)"
proof -
  have w: "\<forall>d. weather_fields price_response \<noteq> Inr d"
    by (simp add: weather_fields_def price_response_def bind_result_def resp_json_def dict_get_def)
  have g: "\<forall>d. github_fields price_response \<noteq> Inr d"
    by (simp add: github_fields_def price_response_def bind_result_def resp_json_def dict_get_def)
  have c: "crypto_fields default_coins price_response
             = Inr [(''bitcoin'', JInt 42000), (''ethereum'', JFloat 2250.5)]"
    by (simp add: crypto_fields_def price_response_def bind_result_def resp_json_def dict_get_def
          dict_has_def dict_set_def default_coins_def)
  show ?thesis
    unfolding numeric_sources_def
    using w g c by (auto simp: answering_def silent_world_def is_number_def fits_float_def)
qed

lemma query_mixed_example:
  "fst (query disconnected_es (ten_minutes mixed_targets) PostgreSQLCollector_init
          (answering price_response))
     = Inr [bitcoin_series ! 0,
            empty_series ''api.weather.temperature'', empty_series ''postgres.cpu_usage'',
            empty_series ''elastic.total_logs'', empty_series ''api.other'']"
  by code_simp

lemma step_count_example: "step_count example_from example_to = 3"
  by (simp add: step_count_def order_key_def example_from_def example_to_def five_minutes_eq)

theorem query_response_shape_witness:
  "fst (query disconnected_es (ten_minutes mixed_targets) PostgreSQLCollector_init
          (answering price_response))
     = Inr [bitcoin_series ! 0,
            empty_series ''api.weather.temperature'', empty_series ''postgres.cpu_usage'',
            empty_series ''elastic.total_logs'', empty_series ''api.other'']
   \<and> length [bitcoin_series ! 0,
            empty_series ''api.weather.temperature'', empty_series ''postgres.cpu_usage'',
            empty_series ''elastic.total_logs'', empty_series ''api.other'']
       = length (targets (ten_minutes mixed_targets))
   \<and> fromisoformat (replace_Z (range_from (ten_minutes mixed_targets))) = Inr example_from
   \<and> fromisoformat (replace_Z (range_to (ten_minutes mixed_targets))) = Inr example_to
   \<and> (utcoffset example_from = None) = (utcoffset example_to = None)
   \<and> wall_us example_from + int (step_count example_from example_to) * five_minutes \<le> MAX_WALL
   \<and> range_converts (local_zone (answering price_response)) example_from example_to
   \<and> numeric_sources (answering price_response)
   \<and> (\<exists>res'. fst (query disconnected_es (ten_minutes mixed_targets) PostgreSQLCollector_init
                     (answering price_response)) = Inr res')"
proof -
  let ?res = "[bitcoin_series ! 0,
            empty_series ''api.weather.temperature'', empty_series ''postgres.cpu_usage'',
            empty_series ''elastic.total_logs'', empty_series ''api.other'']"
  note inst = query_response_shape [where es = disconnected_es and req = "ten_minutes mixed_targets"
          and pg = PostgreSQLCollector_init and w = "answering price_response"
          and f = example_from and t = example_to and res = "?res"]
  have h1: "fromisoformat (replace_Z (range_from (ten_minutes mixed_targets))) = Inr example_from"
    by (simp add: ten_minutes_def parse_example_from)
  have h2: "fromisoformat (replace_Z (range_to (ten_minutes mixed_targets))) = Inr example_to"
    by (simp add: ten_minutes_def parse_example_to)
  have h3: "(utcoffset example_from = None) = (utcoffset example_to = None)"
    by (simp add: example_from_def example_to_def)
  have h4: "wall_us example_from + int (step_count example_from example_to) * five_minutes \<le> MAX_WALL"
    unfolding step_count_example by (simp add: example_from_def five_minutes_eq MAX_WALL_eq)
  have h5: "range_converts (local_zone (answering price_response)) example_from example_to"
    by (rule range_converts_aware [of _ 0]) (simp add: example_from_def)
  have h6: "fromisoformat (replace_Z (range_from (ten_minutes mixed_targets))) = Inr example_from
       \<and> fromisoformat (replace_Z (range_to (ten_minutes mixed_targets))) = Inr example_to
       \<and> (utcoffset example_from = None) = (utcoffset example_to = None)
       \<and> wall_us example_from + int (step_count example_from example_to) * five_minutes \<le> MAX_WALL
       \<and> range_converts (local_zone (answering price_response)) example_from example_to
       \<and> numeric_sources (answering price_response)"
    using h1 h2 h3 h4 h5 numeric_price_world by (intro conjI)
  have h7: "\<exists>res'. fst (query disconnected_es (ten_minutes mixed_targets) PostgreSQLCollector_init
                     (answering price_response)) = Inr res'"
    by (rule inst [THEN conjunct2, THEN mp, OF h6])
  have h8: "length ?res = length (targets (ten_minutes mixed_targets))"
    using inst [THEN conjunct1, THEN mp, OF query_mixed_example] by simp
  from query_mixed_example h8 h1 h2 h3 h4 h5 numeric_price_world h7 show ?thesis
    by (intro conjI)
qed

text \<open>
  C1 as stated fails: the request for the last second of the year 9999 has \<open>range.from\<close>,
  \<open>range.to\<close> and a list of targets, and the handler raises \<open>OverflowError\<close> when
  it adds five minutes to the first timestamp, so there is no response.
\<close>

theorem end_of_range_counterexample:
  "fromisoformat (replace_Z (range_from end_of_time)) = Inr last_second
   \<and> fromisoformat (replace_Z (range_to end_of_time)) = Inr last_second
   \<and> fst (query disconnected_es end_of_time PostgreSQLCollector_init (answering price_response))
     = Inl OverflowError"
  by (simp add: query_def query_range_def end_of_time_def parse_last_second gen_last_second)

end
